theory Spec2Isabelle
  imports Main
begin

section \<open>Data model\<close>

text \<open>
  The file \<^verbatim>\<open>main.go\<close> holds two versions of the sidecar.  This is the later
  one, with the health server and the JSON payload of the write; the reconciler and the
  fetch are the same in both.  A Go slice of strings is a list of strings (the nil slice
  and the empty slice are both \<open>[]\<close>: the code only ever takes \<open>len\<close> of it, ranges
  over it and appends to it).  \<open>time.Duration\<close> is a number of nanoseconds.
\<close>

record Config =
  AdGuardURL :: string
  AdGuardUser :: string
  AdGuardPass :: string
  TargetRule :: string
  CheckInterval :: int
  HealthPort :: string

record FilteringStatus =
  UserRules :: "string list"

section \<open>The position reconciler\<close>

text \<open>
  \<^verbatim>\<open>isRuleAtBottom\<close>: false on the empty slice, otherwise the comparison of the
  element at index \<open>len(rules)-1\<close> with the target (Go's \<open>==\<close> on strings compares
  the bytes).
\<close>

definition isRuleAtBottom :: "string list \<Rightarrow> string \<Rightarrow> bool" where
  "isRuleAtBottom rules targetRule =
     (if length rules = 0 then False
      else rules ! (length rules - 1) = targetRule)"

text \<open>
  \<^verbatim>\<open>removeRule\<close>: the \<open>for ... range\<close> loop over the rules, with the slice
  \<open>result\<close> (initially nil) as the loop variable; \<open>append\<close> adds at the end.
\<close>

fun removeRule_loop :: "string list \<Rightarrow> string \<Rightarrow> string list \<Rightarrow> string list" where
  "removeRule_loop [] targetRule result = result"
| "removeRule_loop (rule # rules) targetRule result =
     removeRule_loop rules targetRule
       (if rule \<noteq> targetRule then result @ [rule] else result)"

definition removeRule :: "string list \<Rightarrow> string \<Rightarrow> string list" where
  "removeRule rules targetRule = removeRule_loop rules targetRule []"

text \<open>
  The decision that \<^verbatim>\<open>enforceRulePosition\<close> takes between its fetch and its write,
  under the name the specification gives it: nothing to do when the target is at the
  bottom, otherwise the list to write is \<open>append(removeRule(rules, target), target)\<close>.
  Lemma \<open>enforceRulePosition_decide\<close> below shows that the cycle acts on exactly this
  decision.
\<close>

datatype Action = NoOp | Reorder "string list"

definition decide :: "string list \<Rightarrow> string \<Rightarrow> Action" where
  "decide rules targetRule =
     (if isRuleAtBottom rules targetRule then NoOp
      else Reorder (removeRule rules targetRule @ [targetRule]))"

section \<open>The outside world\<close>

text \<open>
  What the program sees of the network: the request it builds, and the response or error
  that \<open>client.Do\<close> hands back.  The body of a response is a stream that is read
  after \<open>client.Do\<close> has returned: \<open>Body\<close> is the bytes that arrive, and
  \<open>ReadErr\<close> the error, if any, with which reading ends in place of the end of the
  body (a timeout of the client or a reset of the connection while the body is read).
\<close>

record Request =
  Method :: string
  URL :: string
  BasicAuth :: "(string \<times> string) option"
  ContentType :: "string option"
  ReqBody :: string

record Response =
  StatusCode :: int
  Body :: string

record Received = Response +
  ReadErr :: "string option"

text \<open>
  Go's \<open>error\<close> values, by what they are: the error of \<open>http.NewRequest\<close> and of
  \<open>client.Do\<close>; the three kinds of error that come out of the JSON decoder, which are
  an error of \<open>encoding/json\<close> about the bytes, the error of the body's reader handed
  on, and \<open>io.EOF\<close> or \<open>io.ErrUnexpectedEOF\<close> for a body that ends before a value
  is complete (all returned as they are); the \<open>fmt.Errorf\<close> for a status code other
  than 200; and the wrapping \<open>fmt.Errorf(... %w)\<close> of \<^verbatim>\<open>updateUserRules\<close>
  and \<^verbatim>\<open>enforceRulePosition\<close>.
\<close>

datatype error =
    NewRequestErr string
  | DoErr string
  | UnexpectedStatus int string
  | DecodeErr string
  | BodyReadErr string
  | DecodeEOF
  | FailedToMarshal string
  | FailedToFetch error
  | FailedToUpdate error

text \<open>The log lines, one constructor for each format string of the program.\<close>

datatype LogLine =
    Starting
  | ConfigurationLoaded string string int
  | ErrorOnInitialCheck error
  | ErrorEnforcingRulePosition error
  | HealthServerListening string
  | HealthServerError string
  | FetchedUserRules nat
  | AlreadyAtBottom
  | MovingToBottom nat nat
  | SuccessfullyUpdated

text \<open>
  Everything the process does that can be observed from outside, in order: the log
  lines, the requests handed to \<open>client.Do\<close>, the goroutine and the ticker that
  \<^verbatim>\<open>main\<close> starts.  The two \<open>Called\<close> events mark the entry of the two client
  functions, so that attempts can be counted also when no request leaves the process.
\<close>

datatype Event =
    Log LogLine
  | Called_fetchUserRules
  | Called_updateUserRules "string list"
  | HttpDo Request
  | GoStartHealthServer string
  | NewTicker int

text \<open>
  The library calls and the remote server are parameters of the model: whether
  \<open>http.NewRequest\<close> rejects a method and URL, what \<open>client.Do\<close> returns for a
  request in a state \<open>'w\<close> of the network and the remote server (and the state it leaves),
  what the JSON decoder makes of the bytes of a body (a value of the struct, an error in
  the bytes, or no complete value yet), and \<open>json.Marshal\<close> of the payload
  \<open>{"rules": ...}\<close>.
\<close>

datatype Parsed = Value FilteringStatus | Invalid string | Incomplete

record 'w Env =
  NewRequest_err :: "string \<Rightarrow> string \<Rightarrow> string option"
  Do :: "Request \<Rightarrow> 'w \<Rightarrow> (string + Received) \<times> 'w"
  Decode :: "string \<Rightarrow> Parsed"
  Marshal :: "string list \<Rightarrow> string + string"

text \<open>
  The state of the process: the package-level variables \<open>healthy\<close> and
  \<open>lastCheckOK\<close>, what it has done so far, and the world outside.
\<close>

record 'w State =
  healthy :: bool
  lastCheckOK :: bool
  trace :: "Event list"
  world :: 'w

definition init_State :: "'w \<Rightarrow> 'w State" where
  "init_State w = \<lparr>healthy = True, lastCheckOK = True, trace = [], world = w\<rparr>"

definition emit :: "Event \<Rightarrow> 'w State \<Rightarrow> 'w State" where
  "emit e s = s\<lparr>trace := trace s @ [e]\<rparr>"

definition log_Print :: "LogLine \<Rightarrow> 'w State \<Rightarrow> 'w State" where
  "log_Print l s = emit (Log l) s"

definition http_NewRequest :: "'w Env \<Rightarrow> string \<Rightarrow> string \<Rightarrow> string \<Rightarrow> error + Request" where
  "http_NewRequest env method url body =
     (case NewRequest_err env method url of
        Some e \<Rightarrow> Inl (NewRequestErr e)
      | None \<Rightarrow> Inr \<lparr>Method = method, URL = url, BasicAuth = None,
                      ContentType = None, ReqBody = body\<rparr>)"

definition client_Do :: "'w Env \<Rightarrow> Request \<Rightarrow> 'w State \<Rightarrow> (error + Received) \<times> 'w State" where
  "client_Do env req s =
     (case Do env req (world s) of
        (Inl e, w') \<Rightarrow> (Inl (DoErr e), (emit (HttpDo req) s)\<lparr>world := w'\<rparr>)
      | (Inr resp, w') \<Rightarrow> (Inr resp, (emit (HttpDo req) s)\<lparr>world := w'\<rparr>))"

text \<open>
  \<open>json.NewDecoder(resp.Body).Decode(&status)\<close>: the decoder scans the bytes that
  have arrived before it looks at the error of the read, so a value or an error in the bytes
  wins; only when the bytes hold no complete value does the end of the stream decide.
\<close>

definition json_Decode :: "'w Env \<Rightarrow> Received \<Rightarrow> error + FilteringStatus" where
  "json_Decode env resp =
     (case Decode env (Body resp) of
        Value status \<Rightarrow> Inr status
      | Invalid e \<Rightarrow> Inl (DecodeErr e)
      | Incomplete \<Rightarrow>
          (case ReadErr resp of
             Some e \<Rightarrow> Inl (BodyReadErr e)
           | None \<Rightarrow> Inl DecodeEOF))"

section \<open>The remote list client\<close>

text \<open>
  In both functions \<open>io.ReadAll\<close> on the body of a response with another status than
  200 gives the bytes that arrived; its error is dropped (\<open>body, _ := ...\<close>).
\<close>

definition fetchUserRules :: "'w Env \<Rightarrow> Config \<Rightarrow> 'w State \<Rightarrow> (error + string list) \<times> 'w State" where
  "fetchUserRules env config s0 =
     (let s = emit Called_fetchUserRules s0;
          url = AdGuardURL config @ ''/control/filtering/status''
      in case http_NewRequest env ''GET'' url [] of
           Inl err \<Rightarrow> (Inl err, s)
         | Inr req0 \<Rightarrow>
             (let req = req0\<lparr>BasicAuth := Some (AdGuardUser config, AdGuardPass config)\<rparr>
              in case client_Do env req s of
                   (Inl err, s1) \<Rightarrow> (Inl err, s1)
                 | (Inr resp, s1) \<Rightarrow>
                     if StatusCode resp \<noteq> 200
                     then (Inl (UnexpectedStatus (StatusCode resp) (Body resp)), s1)
                     else (case json_Decode env resp of
                             Inl err \<Rightarrow> (Inl err, s1)
                           | Inr status \<Rightarrow> (Inr (UserRules status), s1))))"

definition updateUserRules :: "'w Env \<Rightarrow> Config \<Rightarrow> string list \<Rightarrow> 'w State \<Rightarrow> error option \<times> 'w State" where
  "updateUserRules env config rules s0 =
     (let s = emit (Called_updateUserRules rules) s0;
          url = AdGuardURL config @ ''/control/filtering/set_rules''
      in case Marshal env rules of
           Inl err \<Rightarrow> (Some (FailedToMarshal err), s)
         | Inr jsonBody \<Rightarrow>
             (case http_NewRequest env ''POST'' url jsonBody of
                Inl err \<Rightarrow> (Some err, s)
              | Inr req0 \<Rightarrow>
                  (let req = req0\<lparr>BasicAuth := Some (AdGuardUser config, AdGuardPass config),
                                  ContentType := Some ''application/json''\<rparr>
                   in case client_Do env req s of
                        (Inl err, s1) \<Rightarrow> (Some err, s1)
                      | (Inr resp, s1) \<Rightarrow>
                          if StatusCode resp \<noteq> 200
                          then (Some (UnexpectedStatus (StatusCode resp) (Body resp)), s1)
                          else (None, s1))))"

section \<open>One cycle\<close>

definition enforceRulePosition :: "'w Env \<Rightarrow> Config \<Rightarrow> 'w State \<Rightarrow> error option \<times> 'w State" where
  "enforceRulePosition env config s =
     (case fetchUserRules env config s of
        (Inl err, s1) \<Rightarrow> (Some (FailedToFetch err), s1)
      | (Inr rules, s1) \<Rightarrow>
          (let s2 = log_Print (FetchedUserRules (length rules)) s1
           in if isRuleAtBottom rules (TargetRule config)
              then (None, log_Print AlreadyAtBottom s2)
              else
                (let updatedRules = removeRule rules (TargetRule config);
                     updatedRules = updatedRules @ [TargetRule config];
                     s3 = log_Print (MovingToBottom (length updatedRules) (length updatedRules)) s2
                 in case updateUserRules env config updatedRules s3 of
                      (Some err, s4) \<Rightarrow> (Some (FailedToUpdate err), s4)
                    | (None, s4) \<Rightarrow> (None, log_Print SuccessfullyUpdated s4))))"

section \<open>The scheduler loop\<close>

text \<open>
  \<^verbatim>\<open>main\<close> after \<open>loadConfig\<close> (the configuration is a parameter; the
  \<open>-health\<close> client mode is another program path).  \<open>time.NewTicker\<close> panics on a
  duration that is not positive.  The loop \<open>for range ticker.C\<close> has no exit; it is
  modelled by what it has done after \<open>n\<close> ticks of the ticker.
\<close>

definition main_startup :: "Config \<Rightarrow> 'w State \<Rightarrow> string + 'w State" where
  "main_startup config s0 =
     (let s1 = log_Print Starting s0;
          s2 = log_Print (ConfigurationLoaded (AdGuardURL config) (TargetRule config)
                            (CheckInterval config)) s1;
          s3 = emit (GoStartHealthServer (HealthPort config)) s2
      in if CheckInterval config \<le> 0 then Inl ''non-positive interval for NewTicker''
         else Inr (emit (NewTicker (CheckInterval config)) s3))"

definition initial_check :: "'w Env \<Rightarrow> Config \<Rightarrow> 'w State \<Rightarrow> 'w State" where
  "initial_check env config s =
     (case enforceRulePosition env config s of
        (Some err, s1) \<Rightarrow> (log_Print (ErrorOnInitialCheck err) s1)\<lparr>lastCheckOK := False\<rparr>
      | (None, s1) \<Rightarrow> s1\<lparr>lastCheckOK := True\<rparr>)"

definition tick_body :: "'w Env \<Rightarrow> Config \<Rightarrow> 'w State \<Rightarrow> 'w State" where
  "tick_body env config s =
     (case enforceRulePosition env config s of
        (Some err, s1) \<Rightarrow> (log_Print (ErrorEnforcingRulePosition err) s1)\<lparr>lastCheckOK := False\<rparr>
      | (None, s1) \<Rightarrow> s1\<lparr>lastCheckOK := True\<rparr>)"

primrec ticker_loop :: "'w Env \<Rightarrow> Config \<Rightarrow> nat \<Rightarrow> 'w State \<Rightarrow> 'w State" where
  "ticker_loop env config 0 s = s"
| "ticker_loop env config (Suc n) s = ticker_loop env config n (tick_body env config s)"

definition main :: "'w Env \<Rightarrow> Config \<Rightarrow> nat \<Rightarrow> 'w \<Rightarrow> string + 'w State" where
  "main env config n w =
     (case main_startup config (init_State w) of
        Inl p \<Rightarrow> Inl p
      | Inr s \<Rightarrow> Inr (ticker_loop env config n (initial_check env config s)))"

section \<open>The health server\<close>

text \<open>
  The two handlers that \<^verbatim>\<open>startHealthServer\<close> registers, as functions of the state
  they read, and what the goroutine does around the blocking
  \<open>http.ListenAndServe\<close>: it logs before the call, and when the call returns (it only
  returns an error) it logs and clears \<open>healthy\<close>.
\<close>

definition healthz :: "'w State \<Rightarrow> Response" where
  "healthz s =
     (if healthy s \<and> lastCheckOK s then \<lparr>StatusCode = 200, Body = ''OK''\<rparr>
      else \<lparr>StatusCode = 503, Body = ''UNHEALTHY''\<rparr>)"

definition readyz :: "'w State \<Rightarrow> Response" where
  "readyz s = \<lparr>StatusCode = 200, Body = ''READY''\<rparr>"

definition startHealthServer_listen :: "string \<Rightarrow> 'w State \<Rightarrow> 'w State" where
  "startHealthServer_listen port s = log_Print (HealthServerListening port) s"

definition startHealthServer_returned :: "string \<Rightarrow> 'w State \<Rightarrow> 'w State" where
  "startHealthServer_returned err s = (log_Print (HealthServerError err) s)\<lparr>healthy := False\<rparr>"

section \<open>Reading the trace\<close>

fun fetch_calls :: "Event list \<Rightarrow> nat" where
  "fetch_calls [] = 0"
| "fetch_calls (Called_fetchUserRules # es) = Suc (fetch_calls es)"
| "fetch_calls (e # es) = fetch_calls es"

fun written :: "Event list \<Rightarrow> string list list" where
  "written [] = []"
| "written (Called_updateUserRules rules # es) = rules # written es"
| "written (e # es) = written es"

fun requests :: "Event list \<Rightarrow> Request list" where
  "requests [] = []"
| "requests (HttpDo req # es) = req # requests es"
| "requests (e # es) = requests es"

fun tickers :: "Event list \<Rightarrow> int list" where
  "tickers [] = []"
| "tickers (NewTicker d # es) = d # tickers es"
| "tickers (e # es) = tickers es"

definition since :: "'w State \<Rightarrow> 'w State \<Rightarrow> Event list" where
  "since s s' = drop (length (trace s)) (trace s')"

section \<open>The vocabulary of the specification\<close>

text \<open>
  The requests that the two client functions hand to \<open>client.Do\<close> (lemmas
  \<open>fetchUserRules_effect\<close> and \<open>updateUserRules_effect\<close> below).
\<close>

definition fetch_request :: "Config \<Rightarrow> Request" where
  "fetch_request config =
     \<lparr>Method = ''GET'', URL = AdGuardURL config @ ''/control/filtering/status'',
      BasicAuth = Some (AdGuardUser config, AdGuardPass config),
      ContentType = None, ReqBody = []\<rparr>"

definition update_request :: "Config \<Rightarrow> string \<Rightarrow> Request" where
  "update_request config jsonBody =
     \<lparr>Method = ''POST'', URL = AdGuardURL config @ ''/control/filtering/set_rules'',
      BasicAuth = Some (AdGuardUser config, AdGuardPass config),
      ContentType = Some ''application/json'', ReqBody = jsonBody\<rparr>"

text \<open>
  The two error classes of the specification, read on the errors of the code.  A
  transport error is a failure of the connection: an error of \<open>client.Do\<close>, or the error
  of the body's reader that the decoder hands on.  A protocol error is a status code other
  than 200, or a body that cannot be decoded: bytes that the decoder rejects, or a body
  that ends, without a read error, before a value is complete.
\<close>

fun is_TransportError :: "error \<Rightarrow> bool" where
  "is_TransportError (DoErr e) = True"
| "is_TransportError (BodyReadErr e) = True"
| "is_TransportError e = False"

fun is_ProtocolError :: "error \<Rightarrow> bool" where
  "is_ProtocolError (UnexpectedStatus code body) = True"
| "is_ProtocolError (DecodeErr e) = True"
| "is_ProtocolError DecodeEOF = True"
| "is_ProtocolError e = False"

text \<open>
  The remote server is not part of the repository; the specification says of it that
  its read endpoint returns the list it holds and that its write endpoint is a full
  replace.  A remote that stores the list is described by two functions:
  \<open>stored w\<close> is the list the remote holds in the world \<open>w\<close> and \<open>reads body\<close> the
  list it reads from the body of a write.  Answering a fetch leaves the stored list as
  it is; an answer 200 to a fetch whose body decodes shows the stored list; an answer
  200 to a write means that the stored list is now the one read from the body.  Nothing
  is assumed of the program's own \<open>json.Marshal\<close>.  In the model the world changes
  only by the requests of the program, so no other writer intervenes.
\<close>

definition remote_stores ::
  "'w Env \<Rightarrow> Config \<Rightarrow> ('w \<Rightarrow> string list) \<Rightarrow> (string \<Rightarrow> string list) \<Rightarrow> bool" where
  "remote_stores env config stored reads \<longleftrightarrow>
     (\<forall>w r w'. Do env (fetch_request config) w = (r, w') \<longrightarrow> stored w' = stored w) \<and>
     (\<forall>w resp w' status.
        Do env (fetch_request config) w = (Inr resp, w') \<longrightarrow> StatusCode resp = 200 \<longrightarrow>
        json_Decode env resp = Inr status \<longrightarrow> UserRules status = stored w) \<and>
     (\<forall>body w resp w'.
        Do env (update_request config body) w = (Inr resp, w') \<longrightarrow> StatusCode resp = 200 \<longrightarrow>
        stored w' = reads body)"

text \<open>
  The body that \<open>json.Marshal\<close> makes of a list carries the list when the remote reads
  that list from it.
\<close>

definition carries :: "'w Env \<Rightarrow> (string \<Rightarrow> string list) \<Rightarrow> string list \<Rightarrow> bool" where
  "carries env reads rules \<longleftrightarrow> (\<forall>body. Marshal env rules = Inr body \<longrightarrow> reads body = rules)"

section \<open>Example environments\<close>

text \<open>
  A configuration, and worlds to run the program in.  The first is a remote that keeps
  the body of the last write and serves it back: its wire format writes every character
  of a rule after a \<open>+\<close> and ends every rule with a \<open>.\<close>, and its answer to a write is
  the plain text \<open>OK\<close>.  The second is a host that cannot be reached.
\<close>

definition example_config :: Config where
  "example_config =
     \<lparr>AdGuardURL = ''http://adguard:3000'', AdGuardUser = ''admin'', AdGuardPass = ''secret'',
      TargetRule = ''target'', CheckInterval = 60000000000, HealthPort = ''8080''\<rparr>"

fun wire_rule :: "string \<Rightarrow> string" where
  "wire_rule [] = ''.''"
| "wire_rule (c # cs) = CHR ''+'' # c # wire_rule cs"

definition wire :: "string list \<Rightarrow> string" where
  "wire rules = concat (map wire_rule rules)"

fun unwire :: "string list \<Rightarrow> string \<Rightarrow> string \<Rightarrow> string list option" where
  "unwire acc cur [] = (if cur = [] then Some acc else None)"
| "unwire acc cur [c] = (if c = CHR ''.'' then Some (acc @ [cur]) else None)"
| "unwire acc cur (c # x # xs) =
     (if c = CHR ''.'' then unwire (acc @ [cur]) [] (x # xs)
      else if c = CHR ''+'' then unwire acc (cur @ [x]) xs
      else None)"

definition memory_Do :: "Request \<Rightarrow> string \<Rightarrow> (string + Received) \<times> string" where
  "memory_Do req w =
     (if Method req = ''POST''
      then (Inr \<lparr>StatusCode = 200, Body = ''OK'', ReadErr = None\<rparr>, ReqBody req)
      else (Inr \<lparr>StatusCode = 200, Body = w, ReadErr = None\<rparr>, w))"

definition memory_Decode :: "string \<Rightarrow> Parsed" where
  "memory_Decode body =
     (case unwire [] [] body of
        None \<Rightarrow> Invalid ''invalid body''
      | Some rules \<Rightarrow> Value \<lparr>UserRules = rules\<rparr>)"

definition memory_list :: "string \<Rightarrow> string list" where
  "memory_list body = (case unwire [] [] body of None \<Rightarrow> [] | Some rules \<Rightarrow> rules)"

definition memory_env :: "string Env" where
  "memory_env =
     \<lparr>NewRequest_err = (\<lambda>method url. None),
      Do = memory_Do,
      Decode = memory_Decode,
      Marshal = (\<lambda>rules. Inr (wire rules))\<rparr>"

definition unreachable_env :: "unit Env" where
  "unreachable_env =
     \<lparr>NewRequest_err = (\<lambda>method url. None),
      Do = (\<lambda>req w. (Inl ''connection refused'', w)),
      Decode = (\<lambda>body. Invalid ''invalid body''),
      Marshal = (\<lambda>rules. Inr [])\<rparr>"

text \<open>
  The same remote, with a marshalling that does to the byte \<open>FF\<close> what
  \<open>json.Marshal\<close> does to every byte that is not part of valid UTF-8: it writes
  U+FFFD in its place, in UTF-8 the bytes \<open>EF BF BD\<close>.  The target of
  \<open>invalid_config\<close> is the byte \<open>FF\<close>.
\<close>

fun replace_FF :: "string \<Rightarrow> string" where
  "replace_FF [] = []"
| "replace_FF (c # cs) =
     (if c = CHR 0xFF then CHR 0xEF # CHR 0xBF # CHR 0xBD # replace_FF cs
      else c # replace_FF cs)"

definition coercing_env :: "string Env" where
  "coercing_env =
     \<lparr>NewRequest_err = (\<lambda>method url. None),
      Do = memory_Do,
      Decode = memory_Decode,
      Marshal = (\<lambda>rules. Inr (wire (map replace_FF rules)))\<rparr>"

definition invalid_config :: Config where
  "invalid_config =
     \<lparr>AdGuardURL = ''http://adguard:3000'', AdGuardUser = ''admin'', AdGuardPass = ''secret'',
      TargetRule = [CHR 0xFF], CheckInterval = 60000000000, HealthPort = ''8080''\<rparr>"

text \<open>
  A remote that answers every request with the status 201 and the list \<open>[target]\<close>, and
  one that answers 200 and breaks the connection before any byte of the body.
\<close>

definition created_env :: "unit Env" where
  "created_env =
     \<lparr>NewRequest_err = (\<lambda>method url. None),
      Do = (\<lambda>req w. (Inr \<lparr>StatusCode = 201, Body = wire [''target''], ReadErr = None\<rparr>, w)),
      Decode = memory_Decode,
      Marshal = (\<lambda>rules. Inr (wire rules))\<rparr>"

definition reset_env :: "unit Env" where
  "reset_env =
     \<lparr>NewRequest_err = (\<lambda>method url. None),
      Do = (\<lambda>req w. (Inr \<lparr>StatusCode = 200, Body = [], ReadErr = Some ''connection reset''\<rparr>, w)),
      Decode = (\<lambda>body. if body = [] then Incomplete else memory_Decode body),
      Marshal = (\<lambda>rules. Inr (wire rules))\<rparr>"

section \<open>Facts about the reconciler\<close>

lemma removeRule_loop_filter:
  "removeRule_loop rules t acc = acc @ filter (\<lambda>r. r \<noteq> t) rules"
  by (induction rules arbitrary: acc) simp_all

lemma removeRule_filter: "removeRule rules t = filter (\<lambda>r. r \<noteq> t) rules"
  by (simp add: removeRule_def removeRule_loop_filter)

lemma isRuleAtBottom_last: "isRuleAtBottom rules t \<longleftrightarrow> rules \<noteq> [] \<and> last rules = t"
  by (cases "rules = []") (simp_all add: isRuleAtBottom_def last_conv_nth)

lemma count_list_removeRule: "count_list (removeRule rules t) t = 0"
  by (simp add: removeRule_filter count_list_0_iff)

lemma removeRule_idem: "removeRule (removeRule rules t @ [t]) t = removeRule rules t"
  by (simp add: removeRule_filter)

section \<open>Facts about the client and the cycle\<close>

lemma fetch_calls_append: "fetch_calls (xs @ ys) = fetch_calls xs + fetch_calls ys"
  by (induction xs rule: fetch_calls.induct) simp_all

lemma written_append: "written (xs @ ys) = written xs @ written ys"
  by (induction xs rule: written.induct) simp_all

lemma requests_append: "requests (xs @ ys) = requests xs @ requests ys"
  by (induction xs rule: requests.induct) simp_all

lemma tickers_append: "tickers (xs @ ys) = tickers xs @ tickers ys"
  by (induction xs rule: tickers.induct) simp_all

lemma enforceRulePosition_decide:
  "enforceRulePosition env config s =
     (case fetchUserRules env config s of
        (Inl err, s1) \<Rightarrow> (Some (FailedToFetch err), s1)
      | (Inr rules, s1) \<Rightarrow>
          (let s2 = log_Print (FetchedUserRules (length rules)) s1
           in case decide rules (TargetRule config) of
                NoOp \<Rightarrow> (None, log_Print AlreadyAtBottom s2)
              | Reorder newList \<Rightarrow>
                  (case updateUserRules env config newList
                          (log_Print (MovingToBottom (length newList) (length newList)) s2) of
                     (Some err, s4) \<Rightarrow> (Some (FailedToUpdate err), s4)
                   | (None, s4) \<Rightarrow> (None, log_Print SuccessfullyUpdated s4))))"
  by (simp add: enforceRulePosition_def decide_def Let_def split: prod.splits sum.splits)

lemma client_Do_effect:
  "client_Do env req s = (r, s') \<Longrightarrow>
     trace s' = trace s @ [HttpDo req] \<and> healthy s' = healthy s \<and> lastCheckOK s' = lastCheckOK s
     \<and> world s' = snd (Do env req (world s))"
  by (auto simp: client_Do_def emit_def split: prod.splits sum.splits)

lemma fetchUserRules_effect:
  assumes "fetchUserRules env config s = (r, s')"
  shows "healthy s' = healthy s \<and> lastCheckOK s' = lastCheckOK s \<and>
         (\<exists>es. trace s' = trace s @ Called_fetchUserRules # es \<and> fetch_calls es = 0 \<and>
               written es = [] \<and> tickers es = [] \<and>
               (requests es = [] \<and> (\<exists>e. r = Inl (NewRequestErr e)) \<or>
                requests es = [fetch_request config]))"
  using assms
  by (auto simp: fetchUserRules_def http_NewRequest_def Let_def emit_def fetch_request_def
      dest!: client_Do_effect split: option.splits sum.splits prod.splits if_splits)

lemma updateUserRules_effect:
  assumes "updateUserRules env config rules s = (r, s')"
  shows "healthy s' = healthy s \<and> lastCheckOK s' = lastCheckOK s \<and>
         (\<exists>es. trace s' = trace s @ Called_updateUserRules rules # es \<and> fetch_calls es = 0 \<and>
               written es = [] \<and> tickers es = [] \<and>
               (requests es = [] \<or>
                (\<exists>jsonBody. Marshal env rules = Inr jsonBody \<and>
                   requests es = [update_request config jsonBody])))"
  using assms
  by (auto simp: updateUserRules_def http_NewRequest_def Let_def emit_def update_request_def
      dest!: client_Do_effect split: option.splits sum.splits prod.splits if_splits)


lemma since_append: "trace s' = trace s @ es \<Longrightarrow> since s s' = es"
  by (simp add: since_def)

lemma log_Print_simps [simp]:
  "trace (log_Print l s) = trace s @ [Log l]"
  "healthy (log_Print l s) = healthy s"
  "lastCheckOK (log_Print l s) = lastCheckOK s"
  "world (log_Print l s) = world s"
  by (simp_all add: log_Print_def emit_def)

lemma enforceRulePosition_success:
  assumes "enforceRulePosition env config s = (None, s')"
  shows "\<exists>L s1. fetchUserRules env config s = (Inr L, s1) \<and>
           (case decide L (TargetRule config) of
              NoOp \<Rightarrow> s' = log_Print AlreadyAtBottom (log_Print (FetchedUserRules (length L)) s1)
            | Reorder newList \<Rightarrow>
                (\<exists>s4. updateUserRules env config newList
                        (log_Print (MovingToBottom (length newList) (length newList))
                           (log_Print (FetchedUserRules (length L)) s1)) = (None, s4) \<and>
                      s' = log_Print SuccessfullyUpdated s4))"
  using assms unfolding enforceRulePosition_decide
  by (auto simp: Let_def split: prod.splits sum.splits Action.splits option.splits)

lemma enforceRulePosition_effect:
  assumes "enforceRulePosition env config s = (r, s')"
  shows "healthy s' = healthy s \<and> lastCheckOK s' = lastCheckOK s \<and>
         (\<exists>es. trace s' = trace s @ es \<and> fetch_calls es = 1 \<and> length (written es) \<le> 1 \<and>
               tickers es = [] \<and>
               (requests es = [] \<or> requests es = [fetch_request config] \<or>
                (\<exists>jsonBody. requests es = [fetch_request config, update_request config jsonBody])))"
proof (cases "fetchUserRules env config s")
  case (Pair fr s1)
  from fetchUserRules_effect [OF Pair] obtain es1 where
    f: "healthy s1 = healthy s" "lastCheckOK s1 = lastCheckOK s"
       "trace s1 = trace s @ Called_fetchUserRules # es1" "fetch_calls es1 = 0"
       "written es1 = []" "tickers es1 = []"
       "requests es1 = [] \<and> (\<exists>e. fr = Inl (NewRequestErr e)) \<or> requests es1 = [fetch_request config]"
    by blast
  show ?thesis
  proof (cases fr)
    case (Inl err)
    with Pair assms have "s' = s1" by (simp add: enforceRulePosition_def)
    with f show ?thesis
      by (auto simp: fetch_calls_append written_append requests_append tickers_append)
  next
    case (Inr L)
    with f have q: "requests es1 = [fetch_request config]" by simp
    let ?s2 = "log_Print (FetchedUserRules (length L)) s1"
    show ?thesis
    proof (cases "decide L (TargetRule config)")
      case NoOp
      with Pair Inr assms have "s' = log_Print AlreadyAtBottom ?s2"
        by (simp add: enforceRulePosition_decide Let_def)
      with f q show ?thesis
        by (simp add: fetch_calls_append written_append requests_append tickers_append)
    next
      case (Reorder newList)
      let ?s3 = "log_Print (MovingToBottom (length newList) (length newList)) ?s2"
      obtain ur s4 where u: "updateUserRules env config newList ?s3 = (ur, s4)"
        by (cases "updateUserRules env config newList ?s3")
      from updateUserRules_effect [OF u] obtain es2 where
        g: "healthy s4 = healthy ?s3" "lastCheckOK s4 = lastCheckOK ?s3"
           "trace s4 = trace ?s3 @ Called_updateUserRules newList # es2" "fetch_calls es2 = 0"
           "written es2 = []" "tickers es2 = []"
           "requests es2 = [] \<or> (\<exists>jsonBody. requests es2 = [update_request config jsonBody])"
        by blast
      from Pair Inr Reorder u assms have "s' = s4 \<or> s' = log_Print SuccessfullyUpdated s4"
        by (auto simp: enforceRulePosition_decide Let_def split: option.splits)
      with f q g show ?thesis
        by (auto simp: fetch_calls_append written_append requests_append tickers_append)
    qed
  qed
qed

lemma enforceRulePosition_written:
  assumes "fetchUserRules env config s = (Inr L, s1)"
  shows "written (since s (snd (enforceRulePosition env config s))) =
           (case decide L (TargetRule config) of NoOp \<Rightarrow> [] | Reorder newList \<Rightarrow> [newList])"
proof -
  from fetchUserRules_effect [OF assms] obtain es1 where
    f: "trace s1 = trace s @ Called_fetchUserRules # es1" "written es1 = []"
    by blast
  let ?s2 = "log_Print (FetchedUserRules (length L)) s1"
  show ?thesis
  proof (cases "decide L (TargetRule config)")
    case NoOp
    with assms f show ?thesis
      by (simp add: enforceRulePosition_decide Let_def since_def written_append)
  next
    case (Reorder newList)
    let ?s3 = "log_Print (MovingToBottom (length newList) (length newList)) ?s2"
    obtain ur s4 where u: "updateUserRules env config newList ?s3 = (ur, s4)"
      by (cases "updateUserRules env config newList ?s3")
    from updateUserRules_effect [OF u] obtain es2 where
      g: "trace s4 = trace ?s3 @ Called_updateUserRules newList # es2" "written es2 = []"
      by blast
    from assms Reorder u f g show ?thesis
      by (auto simp: enforceRulePosition_decide Let_def since_def written_append
          split: option.splits)
  qed
qed

lemma enforceRulePosition_fetch_failed:
  assumes "fetchUserRules env config s = (Inl err, s1)"
  shows "enforceRulePosition env config s = (Some (FailedToFetch err), s1) \<and>
         written (since s s1) = []"
proof -
  from fetchUserRules_effect [OF assms] obtain es1 where
    "trace s1 = trace s @ Called_fetchUserRules # es1" "written es1 = []"
    by blast
  with assms show ?thesis
    by (simp add: enforceRulePosition_def since_def)
qed

lemma enforceRulePosition_NoOp:
  assumes f: "fetchUserRules env config s = (Inr L, s1)"
    and d: "decide L (TargetRule config) = NoOp"
  shows "\<exists>s'. enforceRulePosition env config s = (None, s') \<and> written (since s s') = [] \<and>
              requests (since s s') = requests (since s s1) \<and> world s' = world s1"
proof -
  let ?s' = "log_Print AlreadyAtBottom (log_Print (FetchedUserRules (length L)) s1)"
  from fetchUserRules_effect [OF f] obtain es1 where
    t: "trace s1 = trace s @ Called_fetchUserRules # es1" and "written es1 = []"
    by blast
  then have "written (since s ?s') = []" "requests (since s ?s') = requests (since s s1)"
    by (simp_all add: since_def written_append requests_append)
  moreover from f d have "enforceRulePosition env config s = (None, ?s')"
    by (simp add: enforceRulePosition_decide)
  ultimately show ?thesis by simp
qed

lemma fetchUserRules_result:
  "fst (fetchUserRules env config s) =
     (case NewRequest_err env ''GET'' (URL (fetch_request config)) of
        Some e \<Rightarrow> Inl (NewRequestErr e)
      | None \<Rightarrow>
          (case fst (Do env (fetch_request config) (world s)) of
             Inl e \<Rightarrow> Inl (DoErr e)
           | Inr resp \<Rightarrow>
               if StatusCode resp \<noteq> 200
               then Inl (UnexpectedStatus (StatusCode resp) (Body resp))
               else (case json_Decode env resp of
                       Inl e \<Rightarrow> Inl e
                     | Inr status \<Rightarrow> Inr (UserRules status))))"
  by (simp add: fetchUserRules_def http_NewRequest_def client_Do_def emit_def Let_def
      fetch_request_def split: option.splits prod.splits sum.splits)

lemma updateUserRules_result:
  "fst (updateUserRules env config rules s) =
     (case Marshal env rules of
        Inl e \<Rightarrow> Some (FailedToMarshal e)
      | Inr jsonBody \<Rightarrow>
          (case NewRequest_err env ''POST'' (URL (update_request config jsonBody)) of
             Some e \<Rightarrow> Some (NewRequestErr e)
           | None \<Rightarrow>
               (case fst (Do env (update_request config jsonBody) (world s)) of
                  Inl e \<Rightarrow> Some (DoErr e)
                | Inr resp \<Rightarrow>
                    if StatusCode resp \<noteq> 200
                    then Some (UnexpectedStatus (StatusCode resp) (Body resp))
                    else None)))"
  by (simp add: updateUserRules_def http_NewRequest_def client_Do_def emit_def Let_def
      update_request_def split: option.splits prod.splits sum.splits)

lemma fetchUserRules_world:
  assumes "fetchUserRules env config s = (r, s1)"
  shows "world s1 = world s \<or> (\<exists>d. Do env (fetch_request config) (world s) = (d, world s1))"
  using assms
  by (auto simp: fetchUserRules_def http_NewRequest_def client_Do_def emit_def Let_def
      fetch_request_def split: option.splits prod.splits sum.splits if_splits)

lemma fetchUserRules_Inr:
  assumes "fetchUserRules env config s = (Inr L, s1)"
  shows "\<exists>resp status. Do env (fetch_request config) (world s) = (Inr resp, world s1) \<and>
           StatusCode resp = 200 \<and> json_Decode env resp = Inr status \<and> L = UserRules status"
  using assms
  by (auto simp: fetchUserRules_def http_NewRequest_def client_Do_def emit_def Let_def
      fetch_request_def split: option.splits prod.splits sum.splits if_splits)

lemma updateUserRules_None:
  assumes "updateUserRules env config rules s = (None, s1)"
  shows "\<exists>jsonBody resp. Marshal env rules = Inr jsonBody \<and>
           Do env (update_request config jsonBody) (world s) = (Inr resp, world s1) \<and>
           StatusCode resp = 200 \<and>
           requests (since s s1) = [update_request config jsonBody]"
  using assms
  by (auto simp: updateUserRules_def http_NewRequest_def client_Do_def emit_def Let_def
      update_request_def since_def split: option.splits prod.splits sum.splits if_splits)

lemma fetchUserRules_stored:
  assumes "remote_stores env config stored reads" and "fetchUserRules env config s = (r, s1)"
  shows "stored (world s1) = stored (world s)"
  using fetchUserRules_world [OF assms(2)] assms(1)
  unfolding remote_stores_def by metis

lemma fetchUserRules_shows_stored:
  assumes "remote_stores env config stored reads" and "fetchUserRules env config s = (Inr L, s1)"
  shows "L = stored (world s)"
  using fetchUserRules_Inr [OF assms(2)] assms(1)
  unfolding remote_stores_def by metis

lemma updateUserRules_stored:
  assumes "remote_stores env config stored reads"
    and "updateUserRules env config rules s = (None, s1)"
  shows "\<exists>jsonBody. Marshal env rules = Inr jsonBody \<and> stored (world s1) = reads jsonBody"
  using updateUserRules_None [OF assms(2)] assms(1)
  unfolding remote_stores_def by metis

lemma enforceRulePosition_stored:
  assumes st: "remote_stores env config stored reads"
    and run: "enforceRulePosition env config s = (None, s')"
    and f: "fetchUserRules env config s = (Inr L, s1)"
  shows "case decide L (TargetRule config) of
           NoOp \<Rightarrow> stored (world s') = L
         | Reorder newList \<Rightarrow>
             (\<exists>jsonBody. Marshal env newList = Inr jsonBody \<and> stored (world s') = reads jsonBody)"
proof -
  from enforceRulePosition_success [OF run] f have
    d: "case decide L (TargetRule config) of
          NoOp \<Rightarrow> s' = log_Print AlreadyAtBottom (log_Print (FetchedUserRules (length L)) s1)
        | Reorder newList \<Rightarrow>
            (\<exists>s4. updateUserRules env config newList
                    (log_Print (MovingToBottom (length newList) (length newList))
                       (log_Print (FetchedUserRules (length L)) s1)) = (None, s4) \<and>
                  s' = log_Print SuccessfullyUpdated s4)"
    by simp
  show ?thesis
  proof (cases "decide L (TargetRule config)")
    case NoOp
    with d have "world s' = world s1" by simp
    with fetchUserRules_stored [OF st f] fetchUserRules_shows_stored [OF st f] NoOp
    show ?thesis by simp
  next
    case (Reorder newList)
    with d obtain s3 s4 where u: "updateUserRules env config newList s3 = (None, s4)"
      and w: "world s' = world s4" by auto
    from updateUserRules_stored [OF st u] w Reorder show ?thesis by simp
  qed
qed

lemma enforceRulePosition_Reorder:
  assumes run: "enforceRulePosition env config s = (None, s')"
    and f: "fetchUserRules env config s = (Inr L, s1)"
    and d: "decide L (TargetRule config) = Reorder newList"
  shows "\<exists>jsonBody resp. Marshal env newList = Inr jsonBody \<and>
           requests (since s s') = [fetch_request config, update_request config jsonBody] \<and>
           Do env (update_request config jsonBody) (world s1) = (Inr resp, world s') \<and>
           StatusCode resp = 200"
proof -
  let ?s3 = "log_Print (MovingToBottom (length newList) (length newList))
               (log_Print (FetchedUserRules (length L)) s1)"
  from enforceRulePosition_success [OF run] f d obtain s4 where
    u: "updateUserRules env config newList ?s3 = (None, s4)" and
    s': "s' = log_Print SuccessfullyUpdated s4"
    by auto
  from fetchUserRules_effect [OF f] obtain es1 where
    t1: "trace s1 = trace s @ Called_fetchUserRules # es1" and
    r1: "requests es1 = [fetch_request config]"
    by auto
  from updateUserRules_effect [OF u] obtain es2 where
    t2: "trace s4 = trace ?s3 @ Called_updateUserRules newList # es2"
    by blast
  from updateUserRules_None [OF u] obtain jsonBody resp where
    m: "Marshal env newList = Inr jsonBody" and
    do: "Do env (update_request config jsonBody) (world ?s3) = (Inr resp, world s4)" and
    ok: "StatusCode resp = 200" and
    r2: "requests (since ?s3 s4) = [update_request config jsonBody]"
    by blast
  from t2 r2 have "requests es2 = [update_request config jsonBody]"
    by (simp add: since_def)
  with t1 t2 r1 s' have "requests (since s s') = [fetch_request config, update_request config jsonBody]"
    by (simp add: since_def requests_append)
  with m do ok s' show ?thesis by simp
qed

lemma enforceRulePosition_NoOp_requests:
  assumes f: "fetchUserRules env config s = (Inr L, s1)"
    and d: "decide L (TargetRule config) = NoOp"
  shows "requests (since s (snd (enforceRulePosition env config s))) = [fetch_request config]"
proof -
  from fetchUserRules_effect [OF f] obtain es1 where
    "trace s1 = trace s @ Called_fetchUserRules # es1" "requests es1 = [fetch_request config]"
    by auto
  then have "requests (since s s1) = [fetch_request config]" by (simp add: since_def)
  with enforceRulePosition_NoOp [OF f d] show ?thesis by auto
qed

section \<open>Facts about the scheduler loop\<close>

lemma tick_body_effect:
  "healthy (tick_body env config s) = healthy s \<and>
   lastCheckOK (tick_body env config s) = (fst (enforceRulePosition env config s) = None) \<and>
   (\<exists>es. trace (tick_body env config s) = trace s @ es \<and> fetch_calls es = 1 \<and> tickers es = [])"
proof (cases "enforceRulePosition env config s")
  case (Pair r s1)
  from enforceRulePosition_effect [OF Pair] obtain es where
    e: "healthy s1 = healthy s" "trace s1 = trace s @ es" "fetch_calls es = 1" "tickers es = []"
    by blast
  show ?thesis
  proof (cases r)
    case None
    with Pair e show ?thesis by (simp add: tick_body_def)
  next
    case (Some err)
    with Pair e show ?thesis
      by (simp add: tick_body_def fetch_calls_append tickers_append)
  qed
qed

lemma initial_check_effect:
  "healthy (initial_check env config s) = healthy s \<and>
   lastCheckOK (initial_check env config s) = (fst (enforceRulePosition env config s) = None) \<and>
   (\<exists>es. trace (initial_check env config s) = trace s @ es \<and> fetch_calls es = 1 \<and> tickers es = [])"
proof (cases "enforceRulePosition env config s")
  case (Pair r s1)
  from enforceRulePosition_effect [OF Pair] obtain es where
    e: "healthy s1 = healthy s" "trace s1 = trace s @ es" "fetch_calls es = 1" "tickers es = []"
    by blast
  show ?thesis
  proof (cases r)
    case None
    with Pair e show ?thesis by (simp add: initial_check_def)
  next
    case (Some err)
    with Pair e show ?thesis
      by (simp add: initial_check_def fetch_calls_append tickers_append)
  qed
qed

lemma ticker_loop_effect:
  "healthy (ticker_loop env config n s) = healthy s \<and>
   (\<exists>es. trace (ticker_loop env config n s) = trace s @ es \<and> fetch_calls es = n \<and> tickers es = [])"
proof (induction n arbitrary: s)
  case 0
  show ?case by simp
next
  case (Suc n)
  from tick_body_effect [of env config s] obtain es1 where
    a: "healthy (tick_body env config s) = healthy s"
       "trace (tick_body env config s) = trace s @ es1" "fetch_calls es1 = 1" "tickers es1 = []"
    by blast
  from Suc.IH [of "tick_body env config s"] obtain es2 where
    b: "healthy (ticker_loop env config n (tick_body env config s)) = healthy (tick_body env config s)"
       "trace (ticker_loop env config n (tick_body env config s)) = trace (tick_body env config s) @ es2"
       "fetch_calls es2 = n" "tickers es2 = []"
    by blast
  from a b show ?case
    by (simp add: fetch_calls_append tickers_append)
qed

lemma main_startup_effect:
  "main_startup config (init_State w) =
     (if CheckInterval config \<le> 0 then Inl ''non-positive interval for NewTicker''
      else Inr \<lparr>healthy = True, lastCheckOK = True,
                trace = [Log Starting,
                         Log (ConfigurationLoaded (AdGuardURL config) (TargetRule config)
                                (CheckInterval config)),
                         GoStartHealthServer (HealthPort config),
                         NewTicker (CheckInterval config)],
                world = w\<rparr>)"
  by (simp add: main_startup_def init_State_def log_Print_def emit_def)

lemma failed_check_logged:
  assumes "fst (enforceRulePosition env config s) = Some err"
  shows "lastCheckOK (tick_body env config s) = False \<and>
         last (trace (tick_body env config s)) = Log (ErrorEnforcingRulePosition err) \<and>
         lastCheckOK (initial_check env config s) = False \<and>
         last (trace (initial_check env config s)) = Log (ErrorOnInitialCheck err)"
  using assms
  by (cases "enforceRulePosition env config s") (simp add: tick_body_def initial_check_def)

section \<open>Facts about the example environments\<close>

lemma unwire_wire_rule:
  "unwire acc cur (wire_rule r @ rest) = unwire (acc @ [cur @ r]) [] rest"
proof (induction r arbitrary: cur)
  case Nil
  then show ?case by (cases rest) simp_all
next
  case (Cons c cs)
  then show ?case by simp
qed

lemma unwire_wire: "unwire acc [] (wire rules @ rest) = unwire (acc @ rules) [] rest"
  by (induction rules arbitrary: acc) (simp_all add: wire_def unwire_wire_rule)

lemma unwire_wire_all: "unwire [] [] (wire rules) = Some rules"
  using unwire_wire [of "[]" rules "[]"] by simp

lemma memory_list_wire: "memory_list (wire rules) = rules"
  by (simp add: memory_list_def unwire_wire_all)

lemma memory_Decode_wire: "memory_Decode (wire rules) = Value \<lparr>UserRules = rules\<rparr>"
  by (simp add: memory_Decode_def unwire_wire_all)

lemma fetchUserRules_memory:
  "fetchUserRules memory_env config s =
     ((case unwire [] [] (world s) of
         None \<Rightarrow> Inl (DecodeErr ''invalid body'')
       | Some rules \<Rightarrow> Inr rules),
      s\<lparr>trace := trace s @ [Called_fetchUserRules, HttpDo (fetch_request config)]\<rparr>)"
  by (simp add: fetchUserRules_def memory_env_def memory_Do_def memory_Decode_def json_Decode_def
      http_NewRequest_def client_Do_def emit_def fetch_request_def Let_def split: option.splits)

lemma updateUserRules_memory:
  "updateUserRules memory_env config rules s =
     (None, s\<lparr>trace := trace s @ [Called_updateUserRules rules,
                                   HttpDo (update_request config (wire rules))],
              world := wire rules\<rparr>)"
  by (simp add: updateUserRules_def memory_env_def memory_Do_def http_NewRequest_def
      client_Do_def emit_def update_request_def Let_def)

lemma fetchUserRules_coercing:
  "fetchUserRules coercing_env config s =
     ((case unwire [] [] (world s) of
         None \<Rightarrow> Inl (DecodeErr ''invalid body'')
       | Some rules \<Rightarrow> Inr rules),
      s\<lparr>trace := trace s @ [Called_fetchUserRules, HttpDo (fetch_request config)]\<rparr>)"
  by (simp add: fetchUserRules_def coercing_env_def memory_Do_def memory_Decode_def json_Decode_def
      http_NewRequest_def client_Do_def emit_def fetch_request_def Let_def split: option.splits)

lemma updateUserRules_coercing:
  "updateUserRules coercing_env config rules s =
     (None, s\<lparr>trace := trace s @ [Called_updateUserRules rules,
                                   HttpDo (update_request config (wire (map replace_FF rules)))],
              world := wire (map replace_FF rules)\<rparr>)"
  by (simp add: updateUserRules_def coercing_env_def memory_Do_def http_NewRequest_def
      client_Do_def emit_def update_request_def Let_def)

lemma remote_stores_memory_Do:
  assumes "Do env = memory_Do" and "Decode env = memory_Decode"
  shows "remote_stores env config memory_list memory_list"
  unfolding remote_stores_def
  by (auto simp: assms memory_Do_def memory_Decode_def memory_list_def json_Decode_def
      fetch_request_def update_request_def split: option.splits)

lemma remote_stores_memory: "remote_stores memory_env config memory_list memory_list"
  by (rule remote_stores_memory_Do) (simp_all add: memory_env_def)

lemma remote_stores_coercing: "remote_stores coercing_env config memory_list memory_list"
  by (rule remote_stores_memory_Do) (simp_all add: coercing_env_def)

lemma carries_memory: "carries memory_env memory_list rules"
  by (auto simp: carries_def memory_env_def memory_list_wire)

lemma fetchUserRules_reset:
  "fst (fetchUserRules reset_env example_config (init_State ())) =
     Inl (BodyReadErr ''connection reset'')"
  by (simp add: reset_env_def fetchUserRules_result json_Decode_def init_State_def)

section \<open>The cycle and the invariant it enforces\<close>

text \<open>
  Claim C1, as the code has it.  A cycle that returns success has fetched a list \<open>L\<close>.
  Either \<open>L\<close> is non-empty with the target as its last element, the cycle calls the write
  function not at all, sends the fetch request alone and leaves the world as the fetch
  left it.  Or it calls the write function once, with the list \<open>L'\<close> that is \<open>L\<close> without
  the target followed by the target, so non-empty with the target last; it sends, after
  the fetch request, one write request whose body is \<open>json.Marshal\<close> of \<open>L'\<close>, and the
  answer had status 200.  Against a remote that stores the list, a next fetch that
  succeeds returns \<open>L\<close> in the first case, and in the second the list that the remote
  read from that body: a list with the target last when the body carries \<open>L'\<close>.
\<close>

theorem C1_successful_cycle_leaves_target_last:
  assumes "enforceRulePosition env config s = (None, s')"
  shows "\<exists>L s1. fetchUserRules env config s = (Inr L, s1) \<and>
           ((L \<noteq> [] \<and> last L = TargetRule config \<and> written (since s s') = [] \<and>
             requests (since s s') = [fetch_request config] \<and> world s' = world s1 \<and>
             (remote_stores env config stored reads \<longrightarrow>
                (\<forall>L2 s2. fetchUserRules env config s' = (Inr L2, s2) \<longrightarrow> L2 = L))) \<or>
            (\<exists>L' jsonBody resp.
               L' = removeRule L (TargetRule config) @ [TargetRule config] \<and>
               written (since s s') = [L'] \<and> L' \<noteq> [] \<and> last L' = TargetRule config \<and>
               Marshal env L' = Inr jsonBody \<and>
               requests (since s s') = [fetch_request config, update_request config jsonBody] \<and>
               Do env (update_request config jsonBody) (world s1) = (Inr resp, world s') \<and>
               StatusCode resp = 200 \<and>
               (remote_stores env config stored reads \<longrightarrow>
                  (\<forall>L2 s2. fetchUserRules env config s' = (Inr L2, s2) \<longrightarrow>
                     L2 = reads jsonBody \<and>
                     (reads jsonBody = L' \<longrightarrow> L2 \<noteq> [] \<and> last L2 = TargetRule config)))))"
proof -
  from enforceRulePosition_success [OF assms] obtain L s1 where
    f: "fetchUserRules env config s = (Inr L, s1)"
    by blast
  from enforceRulePosition_written [OF f] assms have
    w: "written (since s s') =
          (case decide L (TargetRule config) of NoOp \<Rightarrow> [] | Reorder newList \<Rightarrow> [newList])"
    by simp
  have nxt: "L2 = stored (world s')"
    if "remote_stores env config stored reads" "fetchUserRules env config s' = (Inr L2, s2)"
    for L2 s2
    using that by (rule fetchUserRules_shows_stored)
  show ?thesis
  proof (cases "decide L (TargetRule config)")
    case NoOp
    then have l: "L \<noteq> [] \<and> last L = TargetRule config"
      by (simp add: decide_def isRuleAtBottom_last split: if_splits)
    from enforceRulePosition_NoOp [OF f NoOp] assms have ws: "world s' = world s1" by auto
    from enforceRulePosition_NoOp_requests [OF f NoOp] assms
    have rq: "requests (since s s') = [fetch_request config]" by simp
    have "\<forall>L2 s2. fetchUserRules env config s' = (Inr L2, s2) \<longrightarrow> L2 = L"
      if st: "remote_stores env config stored reads"
    proof (intro allI impI)
      fix L2 s2 assume n: "fetchUserRules env config s' = (Inr L2, s2)"
      from enforceRulePosition_stored [OF st assms f] NoOp have "stored (world s') = L" by simp
      with nxt [OF st n] show "L2 = L" by simp
    qed
    with f l w NoOp ws rq show ?thesis by auto
  next
    case (Reorder newList)
    then have n: "newList = removeRule L (TargetRule config) @ [TargetRule config]"
      by (simp add: decide_def split: if_splits)
    from enforceRulePosition_Reorder [OF assms f Reorder] obtain jsonBody resp where
      m: "Marshal env newList = Inr jsonBody" and
      rq: "requests (since s s') = [fetch_request config, update_request config jsonBody]" and
      do: "Do env (update_request config jsonBody) (world s1) = (Inr resp, world s')" and
      ok: "StatusCode resp = 200"
      by blast
    have "\<forall>L2 s2. fetchUserRules env config s' = (Inr L2, s2) \<longrightarrow>
            L2 = reads jsonBody \<and>
            (reads jsonBody = newList \<longrightarrow> L2 \<noteq> [] \<and> last L2 = TargetRule config)"
      if st: "remote_stores env config stored reads"
    proof (intro allI impI)
      fix L2 s2 assume nx: "fetchUserRules env config s' = (Inr L2, s2)"
      from enforceRulePosition_stored [OF st assms f] Reorder m
      have "stored (world s') = reads jsonBody" by simp
      with nxt [OF st nx] have "L2 = reads jsonBody" by simp
      with n show "L2 = reads jsonBody \<and>
            (reads jsonBody = newList \<longrightarrow> L2 \<noteq> [] \<and> last L2 = TargetRule config)"
        by simp
    qed
    with w Reorder n m rq do ok
    have "\<exists>L' jsonBody resp.
               L' = removeRule L (TargetRule config) @ [TargetRule config] \<and>
               written (since s s') = [L'] \<and> L' \<noteq> [] \<and> last L' = TargetRule config \<and>
               Marshal env L' = Inr jsonBody \<and>
               requests (since s s') = [fetch_request config, update_request config jsonBody] \<and>
               Do env (update_request config jsonBody) (world s1) = (Inr resp, world s') \<and>
               StatusCode resp = 200 \<and>
               (remote_stores env config stored reads \<longrightarrow>
                  (\<forall>L2 s2. fetchUserRules env config s' = (Inr L2, s2) \<longrightarrow>
                     L2 = reads jsonBody \<and>
                     (reads jsonBody = L' \<longrightarrow> L2 \<noteq> [] \<and> last L2 = TargetRule config)))"
      by (intro exI [of _ newList] exI [of _ jsonBody] exI [of _ resp]) simp
    with f show ?thesis by blast
  qed
qed

theorem C1_witness:
  "fst (enforceRulePosition memory_env example_config
          (init_State (wire [''rule1'', ''target'', ''rule2'']))) = None \<and>
   remote_stores memory_env example_config memory_list memory_list \<and>
   Marshal memory_env [''rule1'', ''rule2'', ''target''] =
     Inr (wire [''rule1'', ''rule2'', ''target'']) \<and>
   memory_list (wire [''rule1'', ''rule2'', ''target'']) = [''rule1'', ''rule2'', ''target''] \<and>
   fst (fetchUserRules memory_env example_config
          (snd (enforceRulePosition memory_env example_config
                  (init_State (wire [''rule1'', ''target'', ''rule2'']))))) =
     Inr [''rule1'', ''rule2'', ''target''] \<and>
   last [''rule1'', ''rule2'', ''target''] = TargetRule example_config"
proof -
  let ?s = "init_State (wire [''rule1'', ''target'', ''rule2'']) :: string State"
  let ?s' = "snd (enforceRulePosition memory_env example_config ?s)"
  let ?W = "[''rule1'', ''rule2'', ''target'']"
  have run1: "fst (enforceRulePosition memory_env example_config ?s) = None"
    by (simp add: enforceRulePosition_def fetchUserRules_memory updateUserRules_memory
        init_State_def wire_def isRuleAtBottom_def removeRule_def example_config_def)
  then have run: "enforceRulePosition memory_env example_config ?s = (None, ?s')"
    by (simp add: prod_eq_iff)
  have st: "remote_stores memory_env example_config memory_list memory_list"
    by (rule remote_stores_memory)
  have m: "Marshal memory_env ?W = Inr (wire ?W)" by (simp add: memory_env_def)
  have r: "memory_list (wire ?W) = ?W" by (rule memory_list_wire)
  have f1: "fst (fetchUserRules memory_env example_config ?s) =
              Inr [''rule1'', ''target'', ''rule2'']"
    by (simp add: fetchUserRules_memory init_State_def unwire_wire_all)
  have n1: "fst (fetchUserRules memory_env example_config ?s') = Inr ?W"
    by (simp add: enforceRulePosition_def fetchUserRules_memory updateUserRules_memory
        init_State_def wire_def isRuleAtBottom_def removeRule_def example_config_def)
  then have nx: "fetchUserRules memory_env example_config ?s' =
                   (Inr ?W, snd (fetchUserRules memory_env example_config ?s'))"
    by (simp add: prod_eq_iff)
  have t: "TargetRule example_config = ''target''" by (simp add: example_config_def)
  from C1_successful_cycle_leaves_target_last [OF run, of memory_list memory_list]
  obtain L s1 where
    f: "fetchUserRules memory_env example_config ?s = (Inr L, s1)" and
    c: "(L \<noteq> [] \<and> last L = TargetRule example_config \<and>
         (remote_stores memory_env example_config memory_list memory_list \<longrightarrow>
            (\<forall>L2 s2. fetchUserRules memory_env example_config ?s' = (Inr L2, s2) \<longrightarrow> L2 = L))) \<or>
        (\<exists>L' jsonBody.
           L' = removeRule L (TargetRule example_config) @ [TargetRule example_config] \<and>
           Marshal memory_env L' = Inr jsonBody \<and>
           (remote_stores memory_env example_config memory_list memory_list \<longrightarrow>
              (\<forall>L2 s2. fetchUserRules memory_env example_config ?s' = (Inr L2, s2) \<longrightarrow>
                 L2 = memory_list jsonBody \<and>
                 (memory_list jsonBody = L' \<longrightarrow> L2 \<noteq> [] \<and> last L2 = TargetRule example_config))))"
    by blast
  from f f1 have L: "L = [''rule1'', ''target'', ''rule2'']" by simp
  with c t have "\<exists>L' jsonBody.
           L' = removeRule L (TargetRule example_config) @ [TargetRule example_config] \<and>
           Marshal memory_env L' = Inr jsonBody \<and>
           (remote_stores memory_env example_config memory_list memory_list \<longrightarrow>
              (\<forall>L2 s2. fetchUserRules memory_env example_config ?s' = (Inr L2, s2) \<longrightarrow>
                 L2 = memory_list jsonBody \<and>
                 (memory_list jsonBody = L' \<longrightarrow> L2 \<noteq> [] \<and> last L2 = TargetRule example_config)))"
    by auto
  then obtain jsonBody where
    "Marshal memory_env ?W = Inr jsonBody"
    "\<forall>L2 s2. fetchUserRules memory_env example_config ?s' = (Inr L2, s2) \<longrightarrow>
       L2 = memory_list jsonBody \<and>
       (memory_list jsonBody = ?W \<longrightarrow> L2 \<noteq> [] \<and> last L2 = TargetRule example_config)"
    using st L t by (auto simp: removeRule_filter)
  with m r nx have "last ?W = TargetRule example_config" by auto
  with run1 st m r n1 show ?thesis by simp
qed

text \<open>
  Claim C1 as stated is for every target.  Here the target is the byte \<open>FF\<close>, which is
  not valid UTF-8, and the marshalling writes U+FFFD for it.  The cycle returns success
  against a remote that stores the list, and the next fetch returns a list whose last
  element is U+FFFD, not the target.
\<close>

theorem C1_invalid_target:
  "fst (enforceRulePosition coercing_env invalid_config (init_State (wire [''rule1'']))) = None \<and>
   remote_stores coercing_env invalid_config memory_list memory_list \<and>
   fst (fetchUserRules coercing_env invalid_config
          (snd (enforceRulePosition coercing_env invalid_config
                  (init_State (wire [''rule1'']))))) =
     Inr [''rule1'', [CHR 0xEF, CHR 0xBF, CHR 0xBD]] \<and>
   last [''rule1'', [CHR 0xEF, CHR 0xBF, CHR 0xBD]] \<noteq> TargetRule invalid_config"
proof -
  have "fst (enforceRulePosition coercing_env invalid_config (init_State (wire [''rule1'']))) = None"
    by (simp add: enforceRulePosition_def fetchUserRules_coercing updateUserRules_coercing
        init_State_def wire_def isRuleAtBottom_def removeRule_def invalid_config_def)
  moreover have "fst (fetchUserRules coercing_env invalid_config
          (snd (enforceRulePosition coercing_env invalid_config
                  (init_State (wire [''rule1'']))))) =
     Inr [''rule1'', [CHR 0xEF, CHR 0xBF, CHR 0xBD]]"
    by (simp add: enforceRulePosition_def fetchUserRules_coercing updateUserRules_coercing
        init_State_def wire_def isRuleAtBottom_def removeRule_def invalid_config_def)
  moreover have "last [''rule1'', [CHR 0xEF, CHR 0xBF, CHR 0xBD]] \<noteq> TargetRule invalid_config"
    by (simp add: invalid_config_def)
  ultimately show ?thesis using remote_stores_coercing by simp
qed

section \<open>The decision\<close>

text \<open>
  Claim C2.  The decision is to reorder exactly when the list is empty or its last
  element is not the target \<open>T\<close>.  The list \<open>L'\<close> of that decision is \<open>L\<close> without
  its occurrences of \<open>T\<close>, in the order they had, followed by one \<open>T\<close>: so \<open>T\<close> occurs
  once in \<open>L'\<close>, at the last index and at no other, and removing \<open>T\<close> from \<open>L'\<close> gives
  what removing it from \<open>L\<close> gives.  It is the list that the cycle hands to the write
  function.
\<close>

theorem C2_reorder_list:
  "((\<exists>N. decide L T = Reorder N) \<longleftrightarrow> (L = [] \<or> last L \<noteq> T)) \<and>
   (decide L T = Reorder L' \<longrightarrow>
      L' = filter (\<lambda>r. r \<noteq> T) L @ [T] \<and>
      count_list L' T = 1 \<and> last L' = T \<and>
      (\<forall>i < length L'. L' ! i = T \<longleftrightarrow> i = length L' - 1) \<and>
      removeRule L' T = removeRule L T \<and>
      removeRule L T = filter (\<lambda>r. r \<noteq> T) L) \<and>
   (fetchUserRules env config s = (Inr L, s1) \<and> decide L (TargetRule config) = Reorder W \<longrightarrow>
      written (since s (snd (enforceRulePosition env config s))) = [W])"
proof -
  let ?F = "filter (\<lambda>r. r \<noteq> T) L"
  have a: "(\<exists>N. decide L T = Reorder N) \<longleftrightarrow> (L = [] \<or> last L \<noteq> T)"
    by (auto simp: decide_def isRuleAtBottom_last)
  have b: "\<forall>i < length (?F @ [T]). (?F @ [T]) ! i = T \<longleftrightarrow> i = length (?F @ [T]) - 1"
  proof (intro allI impI)
    fix i assume i: "i < length (?F @ [T])"
    show "(?F @ [T]) ! i = T \<longleftrightarrow> i = length (?F @ [T]) - 1"
    proof (cases "i < length ?F")
      case True
      then have "?F ! i \<in> set ?F" by (rule nth_mem)
      then have "?F ! i \<noteq> T" by simp
      with True show ?thesis by (simp add: nth_append)
    next
      case False
      with i have "i = length ?F" by simp
      then show ?thesis by simp
    qed
  qed
  have c: "count_list (?F @ [T]) T = 1"
    by (simp add: count_list_0_iff)
  have d: "fetchUserRules env config s = (Inr L, s1) \<and> decide L (TargetRule config) = Reorder W \<longrightarrow>
      written (since s (snd (enforceRulePosition env config s))) = [W]"
    by (auto dest: enforceRulePosition_written)
  have e: "decide L T = Reorder L' \<longrightarrow>
      L' = ?F @ [T] \<and> count_list L' T = 1 \<and> last L' = T \<and>
      (\<forall>i < length L'. L' ! i = T \<longleftrightarrow> i = length L' - 1) \<and>
      removeRule L' T = removeRule L T \<and> removeRule L T = ?F"
    using b c by (auto simp: decide_def removeRule_filter split: if_splits)
  from a e d show ?thesis by blast
qed

theorem C2_witness:
  "decide [''target'', ''rule1'', ''target'', ''rule2''] ''target'' = Reorder [''rule1'', ''rule2'', ''target''] \<and>
   count_list [''rule1'', ''rule2'', ''target''] ''target'' = 1 \<and>
   removeRule [''rule1'', ''rule2'', ''target''] ''target'' = [''rule1'', ''rule2''] \<and>
   ([''rule1'', ''rule2'', ''target''] ! 2 = ''target'') = (2 = length [''rule1'', ''rule2'', ''target''] - 1) \<and>
   fst (fetchUserRules memory_env example_config
          (init_State (wire [''target'', ''rule1'', ''target'', ''rule2'']))) =
     Inr [''target'', ''rule1'', ''target'', ''rule2''] \<and>
   written (since (init_State (wire [''target'', ''rule1'', ''target'', ''rule2'']))
              (snd (enforceRulePosition memory_env example_config
                      (init_State (wire [''target'', ''rule1'', ''target'', ''rule2'']))))) =
     [[''rule1'', ''rule2'', ''target'']]"
proof -
  let ?L = "[''target'', ''rule1'', ''target'', ''rule2'']"
  let ?s = "init_State (wire ?L) :: string State"
  have d: "decide ?L ''target'' = Reorder [''rule1'', ''rule2'', ''target'']"
    by (simp add: decide_def isRuleAtBottom_def removeRule_def)
  have t: "TargetRule example_config = ''target''" by (simp add: example_config_def)
  have f: "fetchUserRules memory_env example_config ?s =
             (Inr ?L, snd (fetchUserRules memory_env example_config ?s))"
    by (simp add: fetchUserRules_memory init_State_def unwire_wire_all)
  have f1: "fst (fetchUserRules memory_env example_config ?s) = Inr ?L"
    by (simp add: fetchUserRules_memory init_State_def unwire_wire_all)
  note c2 = C2_reorder_list [of ?L "''target''" "[''rule1'', ''rule2'', ''target'']" memory_env example_config
      ?s "snd (fetchUserRules memory_env example_config ?s)" "[''rule1'', ''rule2'', ''target'']"]
  from c2 d have "count_list [''rule1'', ''rule2'', ''target''] ''target'' = 1 \<and>
      removeRule [''rule1'', ''rule2'', ''target''] ''target'' = removeRule ?L ''target'' \<and>
      removeRule ?L ''target'' = filter (\<lambda>r. r \<noteq> ''target'') ?L"
    by blast
  then have a: "count_list [''rule1'', ''rule2'', ''target''] ''target'' = 1 \<and>
      removeRule [''rule1'', ''rule2'', ''target''] ''target'' = [''rule1'', ''rule2'']"
    by simp
  from c2 d have "\<forall>i < length [''rule1'', ''rule2'', ''target''].
      [''rule1'', ''rule2'', ''target''] ! i = ''target'' \<longleftrightarrow>
      i = length [''rule1'', ''rule2'', ''target''] - 1"
    by blast
  then have i: "([''rule1'', ''rule2'', ''target''] ! 2 = ''target'') =
      (2 = length [''rule1'', ''rule2'', ''target''] - 1)"
    by simp
  from d t have "decide ?L (TargetRule example_config) = Reorder [''rule1'', ''rule2'', ''target'']"
    by simp
  with c2 f have "written (since ?s (snd (enforceRulePosition memory_env example_config ?s))) =
      [[''rule1'', ''rule2'', ''target'']]"
    by blast
  with d a i f1 show ?thesis by blast
qed

text \<open>
  Claim C3.  The decision is \<open>NoOp\<close> exactly when the list is non-empty and its last
  element is equal to the target as a string.  A cycle whose fetch returns such a list
  returns success, calls the write function not at all, sends no request beyond those
  of the fetch, and leaves the world as the fetch left it.
\<close>

theorem C3_target_last_is_noop:
  "(decide L T = NoOp \<longleftrightarrow> L \<noteq> [] \<and> last L = T) \<and>
   (fetchUserRules env config s = (Inr L, s1) \<and> L \<noteq> [] \<and> last L = TargetRule config \<longrightarrow>
      (\<exists>s'. enforceRulePosition env config s = (None, s') \<and> written (since s s') = [] \<and>
            requests (since s s') = requests (since s s1) \<and> world s' = world s1))"
proof -
  have a: "decide L T = NoOp \<longleftrightarrow> L \<noteq> [] \<and> last L = T" for T
    by (simp add: decide_def isRuleAtBottom_last)
  then show ?thesis
    by (auto dest: enforceRulePosition_NoOp)
qed

theorem C3_witness:
  "decide [''rule1'', ''rule2'', ''target''] ''target'' = NoOp \<and>
   fst (fetchUserRules memory_env example_config
          (init_State (wire [''rule1'', ''rule2'', ''target'']))) =
     Inr [''rule1'', ''rule2'', ''target''] \<and>
   fst (enforceRulePosition memory_env example_config
          (init_State (wire [''rule1'', ''rule2'', ''target'']))) = None \<and>
   written (since (init_State (wire [''rule1'', ''rule2'', ''target'']))
              (snd (enforceRulePosition memory_env example_config
                      (init_State (wire [''rule1'', ''rule2'', ''target'']))))) = [] \<and>
   world (snd (enforceRulePosition memory_env example_config
                 (init_State (wire [''rule1'', ''rule2'', ''target''])))) =
     wire [''rule1'', ''rule2'', ''target'']"
proof -
  let ?L = "[''rule1'', ''rule2'', ''target'']"
  let ?s = "init_State (wire ?L) :: string State"
  have t: "TargetRule example_config = ''target''" by (simp add: example_config_def)
  have f: "fetchUserRules memory_env example_config ?s =
             (Inr ?L, snd (fetchUserRules memory_env example_config ?s))"
    by (simp add: fetchUserRules_memory init_State_def unwire_wire_all)
  have w: "world (snd (fetchUserRules memory_env example_config ?s)) = wire ?L"
    by (simp add: fetchUserRules_memory init_State_def)
  have f1: "fst (fetchUserRules memory_env example_config ?s) = Inr ?L"
    by (simp add: fetchUserRules_memory init_State_def unwire_wire_all)
  note c3 = C3_target_last_is_noop [of ?L "''target''" memory_env example_config
      ?s "snd (fetchUserRules memory_env example_config ?s)"]
  have l: "?L \<noteq> [] \<and> last ?L = ''target'' \<and> last ?L = TargetRule example_config"
    by (simp add: t)
  with c3 have d: "decide ?L ''target'' = NoOp" by blast
  from c3 f l obtain s' where
    "enforceRulePosition memory_env example_config ?s = (None, s')"
    "written (since ?s s') = []"
    "world s' = world (snd (fetchUserRules memory_env example_config ?s))"
    by blast
  then have "fst (enforceRulePosition memory_env example_config ?s) = None \<and>
      written (since ?s (snd (enforceRulePosition memory_env example_config ?s))) = [] \<and>
      world (snd (enforceRulePosition memory_env example_config ?s)) = wire ?L"
    using w by simp
  with d f1 show ?thesis by blast
qed

text \<open>
  Claim C4, as the code has it.  The list of a decision to reorder is itself decided
  \<open>NoOp\<close>.  Against a remote that stores the list, when the first cycle returned success
  and wrote nothing, or the body of its write carries the list it wrote, the cycle that
  follows calls the write function not at all, and when its fetch succeeds it decides
  \<open>NoOp\<close>, returns success and leaves the world as its fetch left it.
\<close>

theorem C4_decide_idempotent:
  "(decide L T = Reorder L' \<longrightarrow> decide L' T = NoOp) \<and>
   (remote_stores env config stored reads \<and>
    enforceRulePosition env config s = (None, s') \<and>
    fst (fetchUserRules env config s) = Inr L0 \<and>
    (decide L0 (TargetRule config) = NoOp \<or>
     carries env reads (removeRule L0 (TargetRule config) @ [TargetRule config])) \<longrightarrow>
      written (since s' (snd (enforceRulePosition env config s'))) = [] \<and>
      (\<forall>L2 s2. fetchUserRules env config s' = (Inr L2, s2) \<longrightarrow>
         decide L2 (TargetRule config) = NoOp \<and>
         fst (enforceRulePosition env config s') = None \<and>
         world (snd (enforceRulePosition env config s')) = world s2))"
proof -
  have a: "decide L T = Reorder L' \<longrightarrow> decide L' T = NoOp"
    by (auto simp: decide_def isRuleAtBottom_last split: if_splits)
  have b: "written (since s' (snd (enforceRulePosition env config s'))) = [] \<and>
      (\<forall>L2 s2. fetchUserRules env config s' = (Inr L2, s2) \<longrightarrow>
         decide L2 (TargetRule config) = NoOp \<and>
         fst (enforceRulePosition env config s') = None \<and>
         world (snd (enforceRulePosition env config s')) = world s2)"
    if st: "remote_stores env config stored reads"
      and run: "enforceRulePosition env config s = (None, s')"
      and f0: "fst (fetchUserRules env config s) = Inr L0"
      and c: "decide L0 (TargetRule config) = NoOp \<or>
              carries env reads (removeRule L0 (TargetRule config) @ [TargetRule config])"
  proof -
    from f0 have f: "fetchUserRules env config s = (Inr L0, snd (fetchUserRules env config s))"
      by (simp add: prod_eq_iff)
    have bottom: "isRuleAtBottom (stored (world s')) (TargetRule config)"
    proof (cases "decide L0 (TargetRule config)")
      case NoOp
      with enforceRulePosition_stored [OF st run f] have "stored (world s') = L0" by simp
      with NoOp show ?thesis by (simp add: decide_def split: if_splits)
    next
      case (Reorder newList)
      then have n: "newList = removeRule L0 (TargetRule config) @ [TargetRule config]"
        by (simp add: decide_def split: if_splits)
      from enforceRulePosition_stored [OF st run f] Reorder obtain jsonBody where
        "Marshal env newList = Inr jsonBody" "stored (world s') = reads jsonBody"
        by auto
      moreover from c Reorder n have "carries env reads newList" by simp
      ultimately have "stored (world s') = newList" by (simp add: carries_def)
      with n show ?thesis by (simp add: isRuleAtBottom_last)
    qed
    have d: "decide L2 (TargetRule config) = NoOp"
      if nx: "fetchUserRules env config s' = (Inr L2, s2)" for L2 s2
      using fetchUserRules_shows_stored [OF st nx] bottom by (simp add: decide_def)
    have w: "written (since s' (snd (enforceRulePosition env config s'))) = []"
    proof (cases "fetchUserRules env config s'")
      case (Pair r s2)
      show ?thesis
      proof (cases r)
        case (Inl err)
        with Pair show ?thesis by (simp add: enforceRulePosition_fetch_failed)
      next
        case (Inr L2)
        with Pair have nx: "fetchUserRules env config s' = (Inr L2, s2)" by simp
        from enforceRulePosition_written [OF nx] d [OF nx] show ?thesis by simp
      qed
    qed
    have "decide L2 (TargetRule config) = NoOp \<and>
         fst (enforceRulePosition env config s') = None \<and>
         world (snd (enforceRulePosition env config s')) = world s2"
      if nx: "fetchUserRules env config s' = (Inr L2, s2)" for L2 s2
      using enforceRulePosition_NoOp [OF nx d [OF nx]] d [OF nx] by auto
    with w show ?thesis by blast
  qed
  from a b show ?thesis by blast
qed

theorem C4_witness:
  "decide [''rule1'', ''target'', ''rule2''] ''target'' = Reorder [''rule1'', ''rule2'', ''target''] \<and>
   decide [''rule1'', ''rule2'', ''target''] ''target'' = NoOp \<and>
   remote_stores memory_env example_config memory_list memory_list \<and>
   carries memory_env memory_list
     (removeRule [''rule1'', ''target'', ''rule2''] (TargetRule example_config) @
        [TargetRule example_config]) \<and>
   fst (fetchUserRules memory_env example_config
          (init_State (wire [''rule1'', ''target'', ''rule2'']))) =
     Inr [''rule1'', ''target'', ''rule2''] \<and>
   fst (enforceRulePosition memory_env example_config
          (init_State (wire [''rule1'', ''target'', ''rule2'']))) = None \<and>
   fst (fetchUserRules memory_env example_config
          (snd (enforceRulePosition memory_env example_config
                  (init_State (wire [''rule1'', ''target'', ''rule2'']))))) =
     Inr [''rule1'', ''rule2'', ''target''] \<and>
   fst (enforceRulePosition memory_env example_config
          (snd (enforceRulePosition memory_env example_config
                  (init_State (wire [''rule1'', ''target'', ''rule2'']))))) = None \<and>
   written (since (snd (enforceRulePosition memory_env example_config
                          (init_State (wire [''rule1'', ''target'', ''rule2'']))))
              (snd (enforceRulePosition memory_env example_config
                      (snd (enforceRulePosition memory_env example_config
                              (init_State (wire [''rule1'', ''target'', ''rule2'']))))))) = []"
proof -
  let ?L = "[''rule1'', ''target'', ''rule2'']"
  let ?W = "[''rule1'', ''rule2'', ''target'']"
  let ?s = "init_State (wire ?L) :: string State"
  let ?s' = "snd (enforceRulePosition memory_env example_config ?s)"
  have d: "decide ?L ''target'' = Reorder ?W"
    by (simp add: decide_def isRuleAtBottom_def removeRule_def)
  have r1: "fst (enforceRulePosition memory_env example_config ?s) = None"
    by (simp add: enforceRulePosition_def fetchUserRules_memory updateUserRules_memory
        init_State_def wire_def isRuleAtBottom_def removeRule_def example_config_def)
  then have run: "enforceRulePosition memory_env example_config ?s = (None, ?s')"
    by (simp add: prod_eq_iff)
  have f0: "fst (fetchUserRules memory_env example_config ?s) = Inr ?L"
    by (simp add: fetchUserRules_memory init_State_def unwire_wire_all)
  have f1: "fst (fetchUserRules memory_env example_config ?s') = Inr ?W"
    by (simp add: enforceRulePosition_def fetchUserRules_memory updateUserRules_memory
        init_State_def wire_def isRuleAtBottom_def removeRule_def example_config_def)
  then have nxt: "fetchUserRules memory_env example_config ?s' =
      (Inr ?W, snd (fetchUserRules memory_env example_config ?s'))"
    by (simp add: prod_eq_iff)
  have st: "remote_stores memory_env example_config memory_list memory_list"
    by (rule remote_stores_memory)
  have ca: "carries memory_env memory_list
     (removeRule ?L (TargetRule example_config) @ [TargetRule example_config])"
    by (rule carries_memory)
  note c4 = C4_decide_idempotent [of ?L "''target''" ?W
      memory_env example_config memory_list memory_list ?s ?s' ?L]
  from c4 d have e: "decide ?W ''target'' = NoOp" by blast
  from c4 st run f0 ca
  have w: "written (since ?s' (snd (enforceRulePosition memory_env example_config ?s'))) = []"
    by blast
  from c4 st run f0 ca nxt
  have r2: "fst (enforceRulePosition memory_env example_config ?s') = None"
    by blast
  from d e st ca f0 r1 f1 r2 w show ?thesis by blast
qed

text \<open>
  Claim C4 as stated is for every target.  With the byte \<open>FF\<close> as the target and a
  marshalling that writes U+FFFD for it, the first cycle returns success, and the cycle
  that follows writes again: the list it fetched ends in U+FFFD, not in the target.
\<close>

theorem C4_second_cycle_writes_again:
  "fst (enforceRulePosition coercing_env invalid_config (init_State (wire [''rule1'']))) = None \<and>
   remote_stores coercing_env invalid_config memory_list memory_list \<and>
   written (since (snd (enforceRulePosition coercing_env invalid_config
                          (init_State (wire [''rule1'']))))
              (snd (enforceRulePosition coercing_env invalid_config
                      (snd (enforceRulePosition coercing_env invalid_config
                              (init_State (wire [''rule1'']))))))) =
     [[''rule1'', [CHR 0xEF, CHR 0xBF, CHR 0xBD], [CHR 0xFF]]]"
proof -
  have "fst (enforceRulePosition coercing_env invalid_config (init_State (wire [''rule1'']))) = None"
    by (simp add: enforceRulePosition_def fetchUserRules_coercing updateUserRules_coercing
        init_State_def wire_def isRuleAtBottom_def removeRule_def invalid_config_def)
  moreover have "written (since (snd (enforceRulePosition coercing_env invalid_config
                          (init_State (wire [''rule1'']))))
              (snd (enforceRulePosition coercing_env invalid_config
                      (snd (enforceRulePosition coercing_env invalid_config
                              (init_State (wire [''rule1'']))))))) =
     [[''rule1'', [CHR 0xEF, CHR 0xBF, CHR 0xBD], [CHR 0xFF]]]"
    by (simp add: enforceRulePosition_def fetchUserRules_coercing updateUserRules_coercing
        init_State_def wire_def isRuleAtBottom_def removeRule_def invalid_config_def since_def)
  ultimately show ?thesis using remote_stores_coercing by simp
qed

text \<open>
  Claim C5.  On the empty list the decision is to write the list \<open>[T]\<close>, and on a list
  in which \<open>T\<close> does not occur the decision is to write the list with \<open>T\<close> appended;
  a cycle whose fetch returns such a list hands that list to the write function.
\<close>

theorem C5_empty_or_absent_target:
  "decide [] T = Reorder [T] \<and>
   (T \<notin> set L \<longrightarrow> decide L T = Reorder (L @ [T])) \<and>
   (fetchUserRules env config s = (Inr L, s1) \<and> (L = [] \<or> TargetRule config \<notin> set L) \<longrightarrow>
      written (since s (snd (enforceRulePosition env config s))) = [L @ [TargetRule config]])"
proof -
  have a: "T \<notin> set L \<Longrightarrow> decide L T = Reorder (L @ [T])" for T
  proof -
    assume n: "T \<notin> set L"
    then have "filter (\<lambda>r. r \<noteq> T) L = L"
      by (induction L) auto
    moreover from n have "\<not> isRuleAtBottom L T"
      by (auto simp: isRuleAtBottom_last)
    ultimately show ?thesis
      by (simp add: decide_def removeRule_filter)
  qed
  have b: "decide [] T = Reorder [T]"
    by (simp add: decide_def isRuleAtBottom_def removeRule_def)
  have "written (since s (snd (enforceRulePosition env config s))) = [L @ [TargetRule config]]"
    if f: "fetchUserRules env config s = (Inr L, s1)" and l: "L = [] \<or> TargetRule config \<notin> set L"
  proof -
    from l have "TargetRule config \<notin> set L" by auto
    then have "decide L (TargetRule config) = Reorder (L @ [TargetRule config])" by (rule a)
    with enforceRulePosition_written [OF f] show ?thesis by simp
  qed
  with a b show ?thesis by blast
qed

theorem C5_witness:
  "''target'' \<notin> set [''rule1'', ''rule2''] \<and>
   decide [''rule1'', ''rule2''] ''target'' = Reorder [''rule1'', ''rule2'', ''target''] \<and>
   fst (fetchUserRules memory_env example_config (init_State (wire [''rule1'', ''rule2'']))) =
     Inr [''rule1'', ''rule2''] \<and>
   written (since (init_State (wire [''rule1'', ''rule2'']))
              (snd (enforceRulePosition memory_env example_config
                      (init_State (wire [''rule1'', ''rule2'']))))) =
     [[''rule1'', ''rule2'', ''target'']]"
proof -
  let ?L = "[''rule1'', ''rule2'']"
  let ?s = "init_State (wire ?L) :: string State"
  have n: "''target'' \<notin> set ?L" by simp
  have t: "TargetRule example_config = ''target''" by (simp add: example_config_def)
  have f1: "fst (fetchUserRules memory_env example_config ?s) = Inr ?L"
    by (simp add: fetchUserRules_memory init_State_def unwire_wire_all)
  then have f: "fetchUserRules memory_env example_config ?s =
                  (Inr ?L, snd (fetchUserRules memory_env example_config ?s))"
    by (simp add: prod_eq_iff)
  note c5 = C5_empty_or_absent_target [of "''target''" ?L memory_env example_config ?s
      "snd (fetchUserRules memory_env example_config ?s)"]
  from c5 n have d: "decide ?L ''target'' = Reorder (?L @ [''target''])" by blast
  from n t have "?L = [] \<or> TargetRule example_config \<notin> set ?L" by simp
  with c5 f have "written (since ?s (snd (enforceRulePosition memory_env example_config ?s))) =
      [?L @ [TargetRule example_config]]"
    by blast
  with d n f1 t show ?thesis by simp
qed

section \<open>The results of the client\<close>

text \<open>
  Claim C6, as the code has it: success is the status 200 and no other.  Fetch returns
  the decoded list when the request is built, the response has status 200 and its body
  decodes.  It fails with a protocol error exactly when a response arrives whose status
  is not 200, or whose status is 200 and whose body the decoder rejects or ends, without
  a read error, before a value is complete.  It fails with a transport error exactly when
  \<open>client.Do\<close> fails or the read of a body with status 200 fails before a value is
  complete.  Write, once the payload is marshalled and the request built, returns nil
  exactly when a response with status 200 arrives, fails with a protocol error exactly
  when a response with another status arrives, and with a transport error exactly when
  \<open>client.Do\<close> fails.
\<close>

theorem C6_client_failures:
  "(NewRequest_err env ''GET'' (URL (fetch_request config)) = None \<and>
    fst (Do env (fetch_request config) (world s)) = Inr resp \<and>
    StatusCode resp = 200 \<and> Decode env (Body resp) = Value status \<longrightarrow>
      fst (fetchUserRules env config s) = Inr (UserRules status)) \<and>
   ((\<exists>e. fst (fetchUserRules env config s) = Inl e \<and> is_ProtocolError e) \<longleftrightarrow>
      NewRequest_err env ''GET'' (URL (fetch_request config)) = None \<and>
      (\<exists>r. fst (Do env (fetch_request config) (world s)) = Inr r \<and>
           (StatusCode r \<noteq> 200 \<or> (\<exists>m. Decode env (Body r) = Invalid m) \<or>
            Decode env (Body r) = Incomplete \<and> ReadErr r = None))) \<and>
   ((\<exists>e. fst (fetchUserRules env config s) = Inl e \<and> is_TransportError e) \<longleftrightarrow>
      NewRequest_err env ''GET'' (URL (fetch_request config)) = None \<and>
      (isl (fst (Do env (fetch_request config) (world s))) \<or>
       (\<exists>r m. fst (Do env (fetch_request config) (world s)) = Inr r \<and> StatusCode r = 200 \<and>
              Decode env (Body r) = Incomplete \<and> ReadErr r = Some m))) \<and>
   (Marshal env rules = Inr jsonBody \<and>
    NewRequest_err env ''POST'' (URL (update_request config jsonBody)) = None \<longrightarrow>
      (fst (updateUserRules env config rules s) = None \<longleftrightarrow>
         (\<exists>r. fst (Do env (update_request config jsonBody) (world s)) = Inr r \<and>
              StatusCode r = 200)) \<and>
      ((\<exists>e. fst (updateUserRules env config rules s) = Some e \<and> is_ProtocolError e) \<longleftrightarrow>
         (\<exists>r. fst (Do env (update_request config jsonBody) (world s)) = Inr r \<and>
              StatusCode r \<noteq> 200)) \<and>
      ((\<exists>e. fst (updateUserRules env config rules s) = Some e \<and> is_TransportError e) \<longleftrightarrow>
         isl (fst (Do env (update_request config jsonBody) (world s)))))"
proof -
  have f1: "NewRequest_err env ''GET'' (URL (fetch_request config)) = None \<and>
    fst (Do env (fetch_request config) (world s)) = Inr resp \<and>
    StatusCode resp = 200 \<and> Decode env (Body resp) = Value status \<longrightarrow>
      fst (fetchUserRules env config s) = Inr (UserRules status)"
    by (simp add: fetchUserRules_result json_Decode_def)
  have f2: "(\<exists>e. fst (fetchUserRules env config s) = Inl e \<and> is_ProtocolError e) \<longleftrightarrow>
      NewRequest_err env ''GET'' (URL (fetch_request config)) = None \<and>
      (\<exists>r. fst (Do env (fetch_request config) (world s)) = Inr r \<and>
           (StatusCode r \<noteq> 200 \<or> (\<exists>m. Decode env (Body r) = Invalid m) \<or>
            Decode env (Body r) = Incomplete \<and> ReadErr r = None))"
    unfolding fetchUserRules_result json_Decode_def
    by (auto split: option.splits sum.splits if_splits Parsed.splits)
  have f3: "(\<exists>e. fst (fetchUserRules env config s) = Inl e \<and> is_TransportError e) \<longleftrightarrow>
      NewRequest_err env ''GET'' (URL (fetch_request config)) = None \<and>
      (isl (fst (Do env (fetch_request config) (world s))) \<or>
       (\<exists>r m. fst (Do env (fetch_request config) (world s)) = Inr r \<and> StatusCode r = 200 \<and>
              Decode env (Body r) = Incomplete \<and> ReadErr r = Some m))"
    unfolding fetchUserRules_result json_Decode_def
    by (auto split: option.splits sum.splits if_splits Parsed.splits)
  have w: "Marshal env rules = Inr jsonBody \<and>
    NewRequest_err env ''POST'' (URL (update_request config jsonBody)) = None \<longrightarrow>
      (fst (updateUserRules env config rules s) = None \<longleftrightarrow>
         (\<exists>r. fst (Do env (update_request config jsonBody) (world s)) = Inr r \<and>
              StatusCode r = 200)) \<and>
      ((\<exists>e. fst (updateUserRules env config rules s) = Some e \<and> is_ProtocolError e) \<longleftrightarrow>
         (\<exists>r. fst (Do env (update_request config jsonBody) (world s)) = Inr r \<and>
              StatusCode r \<noteq> 200)) \<and>
      ((\<exists>e. fst (updateUserRules env config rules s) = Some e \<and> is_TransportError e) \<longleftrightarrow>
         isl (fst (Do env (update_request config jsonBody) (world s))))"
    unfolding updateUserRules_result
    by (auto split: option.splits sum.splits if_splits)
  from f1 f2 f3 w show ?thesis by blast
qed

theorem C6_witness:
  "NewRequest_err memory_env ''GET'' (URL (fetch_request example_config)) = None \<and>
   fst (Do memory_env (fetch_request example_config) (world (init_State (wire [''rule1''])))) =
     Inr \<lparr>StatusCode = 200, Body = wire [''rule1''], ReadErr = None\<rparr> \<and>
   Decode memory_env (wire [''rule1'']) = Value \<lparr>UserRules = [''rule1'']\<rparr> \<and>
   fst (fetchUserRules memory_env example_config (init_State (wire [''rule1'']))) = Inr [''rule1''] \<and>
   Marshal memory_env [''rule1''] = Inr (wire [''rule1'']) \<and>
   NewRequest_err memory_env ''POST'' (URL (update_request example_config (wire [''rule1'']))) = None \<and>
   fst (Do memory_env (update_request example_config (wire [''rule1''])) (world (init_State []))) =
     Inr \<lparr>StatusCode = 200, Body = ''OK'', ReadErr = None\<rparr> \<and>
   fst (updateUserRules memory_env example_config [''rule1''] (init_State [])) = None \<and>
   fst (fetchUserRules reset_env example_config (init_State ())) =
     Inl (BodyReadErr ''connection reset'') \<and>
   is_TransportError (BodyReadErr ''connection reset'')"
proof -
  let ?s = "init_State (wire [''rule1'']) :: string State"
  let ?resp = "\<lparr>StatusCode = 200, Body = wire [''rule1''], ReadErr = None\<rparr>"
  have a: "NewRequest_err memory_env ''GET'' (URL (fetch_request example_config)) = None"
    by (simp add: memory_env_def)
  have b: "fst (Do memory_env (fetch_request example_config) (world ?s)) = Inr ?resp"
    by (simp add: memory_env_def memory_Do_def fetch_request_def init_State_def)
  have c: "Decode memory_env (wire [''rule1'']) = Value \<lparr>UserRules = [''rule1'']\<rparr>"
    by (simp add: memory_env_def memory_Decode_wire)
  have d: "Marshal memory_env [''rule1''] = Inr (wire [''rule1''])"
    by (simp add: memory_env_def)
  have e: "NewRequest_err memory_env ''POST''
             (URL (update_request example_config (wire [''rule1'']))) = None"
    by (simp add: memory_env_def)
  have g: "fst (Do memory_env (update_request example_config (wire [''rule1'']))
             (world (init_State []))) = Inr \<lparr>StatusCode = 200, Body = ''OK'', ReadErr = None\<rparr>"
    by (simp add: memory_env_def memory_Do_def update_request_def)
  note c6 = C6_client_failures [of memory_env example_config ?s ?resp
      "\<lparr>UserRules = [''rule1'']\<rparr>" "[''rule1'']" "wire [''rule1'']"]
  from c6 a b c have x: "fst (fetchUserRules memory_env example_config ?s) = Inr [''rule1'']"
    by simp
  note c6' = C6_client_failures [of memory_env example_config "init_State []" ?resp
      "\<lparr>UserRules = [''rule1'']\<rparr>" "[''rule1'']" "wire [''rule1'']"]
  from c6' d e g have y: "fst (updateUserRules memory_env example_config [''rule1''] (init_State [])) = None"
    by simp
  from a b c d e g x y fetchUserRules_reset show ?thesis by simp
qed

text \<open>
  Claim C6 as stated makes every successful status a success of the call.  Here the
  response has the status 201, from the successful class, and a body that decodes:
  fetch fails, with the protocol error of an unexpected status, and so does write.
\<close>

theorem C6_status_201_fails:
  "fst (Do created_env (fetch_request example_config) ()) =
     Inr \<lparr>StatusCode = 201, Body = wire [''target''], ReadErr = None\<rparr> \<and>
   Decode created_env (wire [''target'']) = Value \<lparr>UserRules = [''target'']\<rparr> \<and>
   fst (fetchUserRules created_env example_config (init_State ())) =
     Inl (UnexpectedStatus 201 (wire [''target''])) \<and>
   is_ProtocolError (UnexpectedStatus 201 (wire [''target''])) \<and>
   fst (updateUserRules created_env example_config [''target''] (init_State ())) =
     Some (UnexpectedStatus 201 (wire [''target'']))"
  by (simp add: created_env_def memory_Decode_wire fetchUserRules_result updateUserRules_result
      init_State_def)

section \<open>The scheduler loop and the health probes\<close>

text \<open>
  Claim C7.  A cycle that fails is logged and clears \<open>lastCheckOK\<close>, at the initial
  check and at every tick.  Whatever the cycles return, the process with a positive
  interval does not panic, after \<open>n\<close> ticks it has started \<open>n + 1\<close> cycles, one for the
  start and one for each tick, and it has created one ticker, with the configured
  interval.  One cycle calls the fetch function once and the write function at most
  once, and sends no request, or the fetch request alone, or the fetch request followed
  by one write request.
\<close>

theorem C7_failures_do_not_stop_the_loop:
  "(fst (enforceRulePosition env config s) = Some err \<longrightarrow>
      lastCheckOK (tick_body env config s) = False \<and>
      last (trace (tick_body env config s)) = Log (ErrorEnforcingRulePosition err) \<and>
      lastCheckOK (initial_check env config s) = False \<and>
      last (trace (initial_check env config s)) = Log (ErrorOnInitialCheck err)) \<and>
   (0 < CheckInterval config \<longrightarrow>
      (\<exists>s'. main env config n w = Inr s' \<and> fetch_calls (trace s') = n + 1 \<and>
            tickers (trace s') = [CheckInterval config])) \<and>
   fetch_calls (since s (tick_body env config s)) = 1 \<and>
   fetch_calls (since s (snd (enforceRulePosition env config s))) = 1 \<and>
   length (written (since s (snd (enforceRulePosition env config s)))) \<le> 1 \<and>
   (requests (since s (snd (enforceRulePosition env config s))) = [] \<or>
    requests (since s (snd (enforceRulePosition env config s))) = [fetch_request config] \<or>
    (\<exists>jsonBody. requests (since s (snd (enforceRulePosition env config s))) =
                  [fetch_request config, update_request config jsonBody]))"
proof -
  have a: "fst (enforceRulePosition env config s) = Some err \<longrightarrow>
      lastCheckOK (tick_body env config s) = False \<and>
      last (trace (tick_body env config s)) = Log (ErrorEnforcingRulePosition err) \<and>
      lastCheckOK (initial_check env config s) = False \<and>
      last (trace (initial_check env config s)) = Log (ErrorOnInitialCheck err)"
    using failed_check_logged by blast
  have b: "\<exists>s'. main env config n w = Inr s' \<and> fetch_calls (trace s') = n + 1 \<and>
            tickers (trace s') = [CheckInterval config]" if pos: "0 < CheckInterval config"
  proof -
    let ?s0 = "\<lparr>healthy = True, lastCheckOK = True,
                trace = [Log Starting,
                         Log (ConfigurationLoaded (AdGuardURL config) (TargetRule config)
                                (CheckInterval config)),
                         GoStartHealthServer (HealthPort config),
                         NewTicker (CheckInterval config)],
                world = w\<rparr>"
    from pos have m: "main env config n w = Inr (ticker_loop env config n (initial_check env config ?s0))"
      by (simp add: main_def main_startup_effect)
    from initial_check_effect [of env config ?s0] obtain es1 where
      i: "trace (initial_check env config ?s0) = trace ?s0 @ es1" "fetch_calls es1 = 1" "tickers es1 = []"
      by blast
    from ticker_loop_effect [of env config n "initial_check env config ?s0"] obtain es2 where
      l: "trace (ticker_loop env config n (initial_check env config ?s0)) =
            trace (initial_check env config ?s0) @ es2" "fetch_calls es2 = n" "tickers es2 = []"
      by blast
    from i l have "fetch_calls (trace (ticker_loop env config n (initial_check env config ?s0))) = n + 1"
      "tickers (trace (ticker_loop env config n (initial_check env config ?s0))) = [CheckInterval config]"
      by (simp_all add: fetch_calls_append tickers_append)
    with m show ?thesis by simp
  qed
  have c: "fetch_calls (since s (tick_body env config s)) = 1"
    using tick_body_effect [of env config s] by (auto simp: since_def)
  obtain r s1 where e: "enforceRulePosition env config s = (r, s1)"
    by (cases "enforceRulePosition env config s")
  from enforceRulePosition_effect [OF e] obtain es where
    "trace s1 = trace s @ es" "fetch_calls es = 1" "length (written es) \<le> 1"
    "requests es = [] \<or> requests es = [fetch_request config] \<or>
       (\<exists>jsonBody. requests es = [fetch_request config, update_request config jsonBody])"
    by blast
  with e have d: "fetch_calls (since s (snd (enforceRulePosition env config s))) = 1 \<and>
   length (written (since s (snd (enforceRulePosition env config s)))) \<le> 1 \<and>
   (requests (since s (snd (enforceRulePosition env config s))) = [] \<or>
    requests (since s (snd (enforceRulePosition env config s))) = [fetch_request config] \<or>
    (\<exists>jsonBody. requests (since s (snd (enforceRulePosition env config s))) =
                  [fetch_request config, update_request config jsonBody]))"
    by (simp add: since_def)
  from a b c d show ?thesis by blast
qed

theorem C7_witness:
  "fst (enforceRulePosition unreachable_env example_config (init_State ())) =
     Some (FailedToFetch (DoErr ''connection refused'')) \<and>
   lastCheckOK (tick_body unreachable_env example_config (init_State ())) = False \<and>
   last (trace (tick_body unreachable_env example_config (init_State ()))) =
     Log (ErrorEnforcingRulePosition (FailedToFetch (DoErr ''connection refused''))) \<and>
   0 < CheckInterval example_config \<and>
   fetch_calls (trace (projr (main unreachable_env example_config 2 ()))) = 3 \<and>
   tickers (trace (projr (main unreachable_env example_config 2 ()))) = [60000000000]"
proof -
  let ?s = "init_State () :: unit State"
  have f: "fst (enforceRulePosition unreachable_env example_config ?s) =
     Some (FailedToFetch (DoErr ''connection refused''))"
    by (simp add: enforceRulePosition_def fetchUserRules_def http_NewRequest_def client_Do_def
        unreachable_env_def Let_def)
  have p: "0 < CheckInterval example_config" by (simp add: example_config_def)
  note c7 = C7_failures_do_not_stop_the_loop [of unreachable_env example_config ?s
      "FailedToFetch (DoErr ''connection refused'')" 2 "()"]
  from c7 f have a: "lastCheckOK (tick_body unreachable_env example_config ?s) = False \<and>
      last (trace (tick_body unreachable_env example_config ?s)) =
        Log (ErrorEnforcingRulePosition (FailedToFetch (DoErr ''connection refused'')))"
    by blast
  from c7 p obtain s' where "main unreachable_env example_config 2 () = Inr s'"
    "fetch_calls (trace s') = 2 + 1" "tickers (trace s') = [CheckInterval example_config]"
    by blast
  then have "fetch_calls (trace (projr (main unreachable_env example_config 2 ()))) = 3 \<and>
   tickers (trace (projr (main unreachable_env example_config 2 ()))) = [60000000000]"
    by (simp add: example_config_def)
  with f a p show ?thesis by blast
qed

text \<open>
  Claim C8.  The liveness handler answers status 200 with the body \<open>OK\<close> exactly when
  both \<open>healthy\<close> and \<open>lastCheckOK\<close> are set, and status 503 otherwise; the readiness
  handler always answers status 200 with the body \<open>READY\<close>.  After a check
  \<open>lastCheckOK\<close> says whether the cycle returned nil; the scheduler leaves
  \<open>healthy\<close> alone, which starts set and is cleared when \<open>http.ListenAndServe\<close>
  returns.
\<close>

theorem C8_probes:
  "(healthz s = \<lparr>StatusCode = 200, Body = ''OK''\<rparr> \<longleftrightarrow> healthy s \<and> lastCheckOK s) \<and>
   (StatusCode (healthz s) = 200 \<longleftrightarrow> healthy s \<and> lastCheckOK s) \<and>
   (healthz s = \<lparr>StatusCode = 503, Body = ''UNHEALTHY''\<rparr> \<longleftrightarrow> \<not> (healthy s \<and> lastCheckOK s)) \<and>
   readyz s = \<lparr>StatusCode = 200, Body = ''READY''\<rparr> \<and>
   lastCheckOK (initial_check env config s) = (fst (enforceRulePosition env config s) = None) \<and>
   lastCheckOK (tick_body env config s) = (fst (enforceRulePosition env config s) = None) \<and>
   healthy (initial_check env config s) = healthy s \<and>
   healthy (tick_body env config s) = healthy s \<and>
   healthy (init_State w) \<and>
   \<not> healthy (startHealthServer_returned e s)"
  using tick_body_effect [of env config s] initial_check_effect [of env config s]
  by (simp add: healthz_def readyz_def init_State_def startHealthServer_returned_def)

theorem C8_witness:
  "fst (enforceRulePosition unreachable_env example_config (init_State ())) \<noteq> None \<and>
   healthz (tick_body unreachable_env example_config (init_State ())) =
     \<lparr>StatusCode = 503, Body = ''UNHEALTHY''\<rparr> \<and>
   readyz (tick_body unreachable_env example_config (init_State ())) =
     \<lparr>StatusCode = 200, Body = ''READY''\<rparr>"
proof -
  let ?s = "init_State () :: unit State"
  have f: "fst (enforceRulePosition unreachable_env example_config ?s) \<noteq> None"
    by (simp add: enforceRulePosition_def fetchUserRules_def http_NewRequest_def client_Do_def
        unreachable_env_def Let_def)
  note c8 = C8_probes [of "tick_body unreachable_env example_config ?s"
      unreachable_env example_config "()" "''closed''"]
  note c8' = C8_probes [of ?s unreachable_env example_config "()" "''closed''"]
  from c8' f have "\<not> lastCheckOK (tick_body unreachable_env example_config ?s)" by simp
  with c8 have "healthz (tick_body unreachable_env example_config ?s) =
     \<lparr>StatusCode = 503, Body = ''UNHEALTHY''\<rparr>" by blast
  moreover from c8 have "readyz (tick_body unreachable_env example_config ?s) =
     \<lparr>StatusCode = 200, Body = ''READY''\<rparr>" by blast
  ultimately show ?thesis using f by blast
qed

text \<open>
  Claim C10.  Both flags start set.  In the state that \<^verbatim>\<open>main\<close> reaches before the
  initial check, the health server has been started, no cycle has begun, and the liveness
  handler answers status 200 with \<open>OK\<close>; it still does when the initial cycle has
  returned, whatever it returned, until \<^verbatim>\<open>main\<close> assigns \<open>lastCheckOK\<close>.
\<close>

theorem C10_healthy_before_first_cycle:
  "healthy (init_State w) \<and> lastCheckOK (init_State w) \<and>
   (main_startup config (init_State w) = Inr s \<longrightarrow>
      GoStartHealthServer (HealthPort config) \<in> set (trace s) \<and>
      fetch_calls (trace s) = 0 \<and>
      healthz s = \<lparr>StatusCode = 200, Body = ''OK''\<rparr> \<and>
      healthz (snd (enforceRulePosition env config s)) = \<lparr>StatusCode = 200, Body = ''OK''\<rparr> \<and>
      main env config 0 w = Inr (initial_check env config s))"
proof -
  have flags: "healthy (init_State w) \<and> lastCheckOK (init_State w)"
    by (simp add: init_State_def)
  have "GoStartHealthServer (HealthPort config) \<in> set (trace s) \<and>
      fetch_calls (trace s) = 0 \<and>
      healthz s = \<lparr>StatusCode = 200, Body = ''OK''\<rparr> \<and>
      healthz (snd (enforceRulePosition env config s)) = \<lparr>StatusCode = 200, Body = ''OK''\<rparr> \<and>
      main env config 0 w = Inr (initial_check env config s)"
    if st: "main_startup config (init_State w) = Inr s"
  proof -
    from st have s: "s = \<lparr>healthy = True, lastCheckOK = True,
                trace = [Log Starting,
                         Log (ConfigurationLoaded (AdGuardURL config) (TargetRule config)
                                (CheckInterval config)),
                         GoStartHealthServer (HealthPort config),
                         NewTicker (CheckInterval config)],
                world = w\<rparr>"
      unfolding main_startup_effect by (simp split: if_splits)
    obtain r s1 where e: "enforceRulePosition env config s = (r, s1)"
      by (cases "enforceRulePosition env config s")
    from enforceRulePosition_effect [OF e] have "healthy s1 = healthy s" "lastCheckOK s1 = lastCheckOK s"
      by simp_all
    with e s have "healthz (snd (enforceRulePosition env config s)) = \<lparr>StatusCode = 200, Body = ''OK''\<rparr>"
      by (simp add: healthz_def)
    moreover from s have "GoStartHealthServer (HealthPort config) \<in> set (trace s)"
      "fetch_calls (trace s) = 0" "healthz s = \<lparr>StatusCode = 200, Body = ''OK''\<rparr>"
      by (simp_all add: healthz_def)
    moreover from st have "main env config 0 w = Inr (initial_check env config s)"
      by (simp add: main_def)
    ultimately show ?thesis by simp
  qed
  with flags show ?thesis by blast
qed

theorem C10_witness:
  "main_startup example_config (init_State ()) =
     Inr \<lparr>healthy = True, lastCheckOK = True,
          trace = [Log Starting,
                   Log (ConfigurationLoaded ''http://adguard:3000'' ''target'' 60000000000),
                   GoStartHealthServer ''8080'', NewTicker 60000000000],
          world = ()\<rparr> \<and>
   fst (enforceRulePosition unreachable_env example_config
          (projr (main_startup example_config (init_State ())))) =
     Some (FailedToFetch (DoErr ''connection refused'')) \<and>
   healthz (snd (enforceRulePosition unreachable_env example_config
                   (projr (main_startup example_config (init_State ()))))) =
     \<lparr>StatusCode = 200, Body = ''OK''\<rparr>"
proof -
  let ?s = "\<lparr>healthy = True, lastCheckOK = True,
          trace = [Log Starting,
                   Log (ConfigurationLoaded ''http://adguard:3000'' ''target'' 60000000000),
                   GoStartHealthServer ''8080'', NewTicker 60000000000],
          world = ()\<rparr>"
  have st: "main_startup example_config (init_State ()) = Inr ?s"
    by (simp add: main_startup_effect example_config_def)
  have f: "fst (enforceRulePosition unreachable_env example_config ?s) =
     Some (FailedToFetch (DoErr ''connection refused''))"
    by (simp add: enforceRulePosition_def fetchUserRules_def http_NewRequest_def client_Do_def
        unreachable_env_def Let_def)
  from C10_healthy_before_first_cycle [of "()" example_config ?s unreachable_env] st
  have "healthz (snd (enforceRulePosition unreachable_env example_config ?s)) =
     \<lparr>StatusCode = 200, Body = ''OK''\<rparr>"
    by blast
  with st f show ?thesis by simp
qed

end
